theory Spec2Isabelle
  imports Main "HOL-Library.AList" "HOL-Library.Sublist" "HOL-Library.Log_Nat"
begin

section \<open>The file system\<close>

text \<open>
  The script works on the tree below its current directory through relative paths.
  A path is the list of its components (\<^verbatim>\<open>"src/types/ui"\<close> is
  \<open>[''src'', ''types'', ''ui'']\<close>); the empty list is Python's empty path string.
  A file carries its bytes; a directory carries its entries in listing order.
  There are no symbolic links and no permissions in this model.
\<close>

type_synonym path = "string list"

datatype node = File string | Dir "(string \<times> node) list"

fun node_at :: "node \<Rightarrow> path \<Rightarrow> node option" where
  "node_at n [] = Some n"
| "node_at (File c) (x # xs) = None"
| "node_at (Dir es) (x # xs) =
     (case map_of es x of None \<Rightarrow> None | Some c \<Rightarrow> node_at c xs)"

text \<open>\<open>put_node t p n\<close> binds \<open>p\<close> to \<open>n\<close> when the parent of \<open>p\<close> is a directory
  of \<open>t\<close>; \<open>del_node t p\<close> unlinks \<open>p\<close> with all below it.\<close>

fun put_node :: "node \<Rightarrow> path \<Rightarrow> node \<Rightarrow> node" where
  "put_node t [] n = n"
| "put_node (File c) (x # xs) n = File c"
| "put_node (Dir es) [x] n = Dir (AList.update x n es)"
| "put_node (Dir es) (x # y # ys) n =
     (case map_of es x of
        None \<Rightarrow> Dir es
      | Some c \<Rightarrow> Dir (AList.update x (put_node c (y # ys) n) es))"

fun del_node :: "node \<Rightarrow> path \<Rightarrow> node" where
  "del_node t [] = t"
| "del_node (File c) (x # xs) = File c"
| "del_node (Dir es) [x] = Dir (AList.delete x es)"
| "del_node (Dir es) (x # y # ys) =
     (case map_of es x of
        None \<Rightarrow> Dir es
      | Some c \<Rightarrow> Dir (AList.update x (del_node c (y # ys)) es))"

text \<open>Total size in bytes of the files of a tree (the sum \<^verbatim>\<open>os.walk\<close> and
  \<^verbatim>\<open>os.path.getsize\<close> compute in \<^verbatim>\<open>check_disk_space\<close>).\<close>

fun tree_size :: "node \<Rightarrow> nat" where
  "tree_size (File c) = length c"
| "tree_size (Dir es) = sum_list (map (\<lambda>e. tree_size (snd e)) es)"

subsection \<open>The calls of \<^verbatim>\<open>os\<close>, \<^verbatim>\<open>os.path\<close> and \<^verbatim>\<open>shutil\<close> the script makes\<close>

datatype exn =
    FileNotFoundError | FileExistsError | NotADirectoryError | IsADirectoryError
  | OSError | ShutilError | OverflowError | ZeroDivisionError | InjectedFailure

definition os_path_exists :: "node \<Rightarrow> path \<Rightarrow> bool" where
  "os_path_exists fs p = (p \<noteq> [] \<and> node_at fs p \<noteq> None)"

definition os_path_isdir :: "node \<Rightarrow> path \<Rightarrow> bool" where
  "os_path_isdir fs p =
     (p \<noteq> [] \<and> (case node_at fs p of Some (Dir es) \<Rightarrow> True | _ \<Rightarrow> False))"

definition os_path_isfile :: "node \<Rightarrow> path \<Rightarrow> bool" where
  "os_path_isfile fs p =
     (p \<noteq> [] \<and> (case node_at fs p of Some (File c) \<Rightarrow> True | _ \<Rightarrow> False))"

definition os_path_dirname :: "path \<Rightarrow> path" where
  "os_path_dirname p = butlast p"

definition os_path_join :: "path \<Rightarrow> string \<Rightarrow> path" where
  "os_path_join p name = p @ [name]"

definition os_listdir :: "node \<Rightarrow> path \<Rightarrow> string list" where
  "os_listdir fs p = (case node_at fs p of Some (Dir es) \<Rightarrow> map fst es | _ \<Rightarrow> [])"

text \<open>\<^verbatim>\<open>os.makedirs(p, exist_ok=True)\<close>: every missing directory on the way to \<open>p\<close>
  is created; a plain file on the way (or at \<open>p\<close>) raises and nothing is created,
  since whatever lies above an existing file exists already.\<close>

fun mkdirs :: "node \<Rightarrow> path \<Rightarrow> exn + node" where
  "mkdirs (Dir es) [] = Inr (Dir es)"
| "mkdirs (File c) [] = Inl FileExistsError"
| "mkdirs (File c) (x # xs) = Inl NotADirectoryError"
| "mkdirs (Dir es) (x # xs) =
     (case mkdirs (case map_of es x of None \<Rightarrow> Dir [] | Some c \<Rightarrow> c) xs of
        Inl e \<Rightarrow> Inl e
      | Inr c' \<Rightarrow> Inr (Dir (AList.update x c' es)))"

definition os_makedirs :: "node \<Rightarrow> path \<Rightarrow> exn + node" where
  "os_makedirs fs p = (if p = [] then Inl FileNotFoundError else mkdirs fs p)"

text \<open>\<^verbatim>\<open>os.rename\<close> with the POSIX rules: a file replaces a file, a directory
  replaces an empty directory, the parent of the target must be a directory, and a
  directory does not move below itself.\<close>

definition os_rename :: "node \<Rightarrow> path \<Rightarrow> path \<Rightarrow> exn + node" where
  "os_rename fs src dst =
     (case node_at fs src of
        None \<Rightarrow> Inl FileNotFoundError
      | Some n \<Rightarrow>
          if src = [] \<or> dst = [] then Inl FileNotFoundError
          else if src = dst then Inr fs
          else if butlast dst \<noteq> [] \<and> \<not> os_path_isdir fs (butlast dst)
            then Inl FileNotFoundError
          else if prefix src dst then Inl OSError
          else
            (case (n, node_at fs dst) of
               (File c, Some (Dir es)) \<Rightarrow> Inl IsADirectoryError
             | (Dir es, Some (File c)) \<Rightarrow> Inl NotADirectoryError
             | (Dir es, Some (Dir (e # es'))) \<Rightarrow> Inl OSError
             | _ \<Rightarrow> Inr (put_node (del_node fs src) dst n)))"

text \<open>\<^verbatim>\<open>shutil.move(src, dst)\<close> within one file system: a destination that is a
  directory receives the source under its own base name, unless that name is taken;
  everything else is \<^verbatim>\<open>os.rename\<close>. (The copy-and-delete fallback of
  \<^verbatim>\<open>shutil.move\<close> is for moves across devices; where the rename fails here, it
  fails as well.)\<close>

definition shutil_move :: "node \<Rightarrow> path \<Rightarrow> path \<Rightarrow> exn + node" where
  "shutil_move fs src dst =
     (if os_path_isdir fs dst then
        (if src = dst then Inr fs
         else if os_path_exists fs (os_path_join dst (last src)) then Inl ShutilError
         else os_rename fs src (os_path_join dst (last src)))
      else os_rename fs src dst)"

text \<open>\<^verbatim>\<open>shutil.copytree(src, dst)\<close>: \<open>dst\<close> must not exist; its missing parents are
  created; the tree at \<open>src\<close> is copied.\<close>

definition shutil_copytree :: "node \<Rightarrow> path \<Rightarrow> path \<Rightarrow> exn + node" where
  "shutil_copytree fs src dst =
     (case node_at fs src of
        Some (Dir es) \<Rightarrow>
          if src = [] \<or> dst = [] then Inl FileNotFoundError
          else if os_path_exists fs dst then Inl FileExistsError
          else (case mkdirs fs (butlast dst) of
                  Inl e \<Rightarrow> Inl e
                | Inr fs' \<Rightarrow> Inr (put_node fs' dst (Dir es)))
      | Some (File c) \<Rightarrow> Inl NotADirectoryError
      | None \<Rightarrow> Inl FileNotFoundError)"

definition shutil_rmtree :: "node \<Rightarrow> path \<Rightarrow> exn + node" where
  "shutil_rmtree fs p =
     (if os_path_isdir fs p then Inr (del_node fs p)
      else if os_path_exists fs p then Inl NotADirectoryError
      else Inl FileNotFoundError)"

subsection \<open>Strings\<close>

text \<open>Names are byte strings (UTF-8). \<^verbatim>\<open>str.endswith\<close> and the substring
  test \<^verbatim>\<open>in\<close> are the same on bytes as on code points. \<^verbatim>\<open>str.lower\<close> is a
  Unicode table of the Python runtime: the script's functions take it from the world
  they run in (field \<open>str_lower\<close> below), so every theorem holds for whatever that
  table is. \<open>ascii_lower\<close> is its restriction to ASCII names, used in the sample
  worlds, whose names are ASCII.\<close>

definition lower_char :: "char \<Rightarrow> char" where
  "lower_char c =
     (case map_of (zip ''ABCDEFGHIJKLMNOPQRSTUVWXYZ'' ''abcdefghijklmnopqrstuvwxyz'') c of
        Some l \<Rightarrow> l
      | None \<Rightarrow> c)"

definition ascii_lower :: "string \<Rightarrow> string" where
  "ascii_lower s = map lower_char s"

definition str_endswith :: "string \<Rightarrow> string \<Rightarrow> bool" where
  "str_endswith s suf = prefix (rev suf) (rev s)"

fun str_in :: "string \<Rightarrow> string \<Rightarrow> bool" where
  "str_in needle [] = (needle = [])"
| "str_in needle (c # cs) = (prefix needle (c # cs) \<or> str_in needle cs)"

fun path_str :: "path \<Rightarrow> string" where
  "path_str [] = []"
| "path_str [x] = x"
| "path_str (x # y # ys) = x @ ''/'' @ path_str (y # ys)"

text \<open>The text of an exception, by its class; the operating system's own wording of
  \<^verbatim>\<open>str(e)\<close> is not modelled.\<close>

fun exn_str :: "exn \<Rightarrow> string" where
  "exn_str FileNotFoundError = ''No such file or directory''"
| "exn_str FileExistsError = ''File exists''"
| "exn_str NotADirectoryError = ''Not a directory''"
| "exn_str IsADirectoryError = ''Is a directory''"
| "exn_str OSError = ''OS error''"
| "exn_str ShutilError = ''Destination path already exists''"
| "exn_str OverflowError = ''int too large to convert to float''"
| "exn_str ZeroDivisionError = ''division by zero''"
| "exn_str InjectedFailure = ''injected failure''"

subsection \<open>Python floats, as far as \<^verbatim>\<open>check_disk_space\<close> needs them\<close>

text \<open>
  \<^verbatim>\<open>src_size * (2 if backup else 1) * 1.2\<close> multiplies an \<^verbatim>\<open>int\<close> by the
  \<^verbatim>\<open>float\<close> nearest to 1.2: the integer is converted to a binary64 float, the
  product is rounded to a binary64 float, both to nearest with ties to even.
  A finite float is modelled by the rational it denotes. \<open>to_double\<close> rounds a
  rational that is 0 or at least 1 (the only arguments met here); \<open>None\<close> stands for
  a result beyond the largest finite float.
\<close>

definition round_half_even :: "rat \<Rightarrow> int" where
  "round_half_even q =
     (let f = \<lfloor>q\<rfloor>; r = q - of_int f in
      if r < 1 / 2 then f
      else if 1 / 2 < r then f + 1
      else if even f then f else f + 1)"

definition pow2 :: "int \<Rightarrow> rat" where
  "pow2 e = (if 0 \<le> e then 2 ^ nat e else 1 / 2 ^ nat (- e))"

definition to_double :: "rat \<Rightarrow> rat option" where
  "to_double x =
     (if x = 0 then Some 0
      else
        let e = bitlen \<lfloor>x\<rfloor> - 1;
            y = of_int (round_half_even (x / pow2 (e - 52))) * pow2 (e - 52) in
        if y < 2 ^ 1024 then Some y else None)"

definition float_1_2 :: rat where
  "float_1_2 = 5404319552844595 / 2 ^ 52"

definition int_times_float :: "nat \<Rightarrow> rat \<Rightarrow> exn + rat option" where
  "int_times_float n d =
     (case to_double (of_nat n) of
        None \<Rightarrow> Inl OverflowError
      | Some x \<Rightarrow> Inr (to_double (x * d)))"

section \<open>The reorganizer (\<^verbatim>\<open>new_structure.py\<close>)\<close>

subsection \<open>The world the script runs in\<close>

text \<open>
  \<open>root\<close> is the tree below the current directory, \<open>free_space\<close> what
  \<^verbatim>\<open>shutil.disk_usage(".").free\<close> returns, \<open>clock\<close> the timestamp
  \<^verbatim>\<open>datetime.now().strftime("%Y%m%d_%H%M%S")\<close> and \<open>logs\<close> the records handed to
  \<^verbatim>\<open>logging\<close>. \<open>str_lower\<close> is the runtime's \<^verbatim>\<open>str.lower\<close>. \<open>fuse\<close> is a fault-injection plan for the rollback property:
  \<open>Some k\<close> lets \<open>k\<close> calls of the file mover through and raises an exception on
  entry to the next one, outside every \<^verbatim>\<open>try\<close> of \<^verbatim>\<open>move_file\<close>; \<open>None\<close> injects
  nothing, and the script runs as written.
\<close>

datatype level = INFO | WARNING | ERROR

record world =
  root :: node
  free_space :: nat
  clock :: string
  logs :: "(level \<times> string) list"
  str_lower :: "string \<Rightarrow> string"
  fuse :: "nat option"

definition logging :: "level \<Rightarrow> string \<Rightarrow> world \<Rightarrow> world" where
  "logging lv msg w = w\<lparr>logs := logs w @ [(lv, msg)]\<rparr>"

definition inject :: "world \<Rightarrow> exn option \<times> world" where
  "inject w =
     (case fuse w of
        None \<Rightarrow> (None, w)
      | Some 0 \<Rightarrow> (Some InjectedFailure, w\<lparr>fuse := None\<rparr>)
      | Some (Suc k) \<Rightarrow> (None, w\<lparr>fuse := Some k\<rparr>))"

subsection \<open>Configuration tables\<close>

definition NEW_DIRS :: "path list" where
  "NEW_DIRS = [
    [''src'', ''types''],
    [''src'', ''types'', ''factions''],
    [''src'', ''types'', ''ships''],
    [''src'', ''types'', ''combat''],
    [''src'', ''types'', ''ui''],
    [''src'', ''config''],
    [''src'', ''config'', ''factions''],
    [''src'', ''config'', ''ships''],
    [''src'', ''config'', ''combat''],
    [''src'', ''config'', ''game''],
    [''src'', ''components''],
    [''src'', ''components'', ''ships''],
    [''src'', ''components'', ''ships'', ''common''],
    [''src'', ''components'', ''ships'', ''player''],
    [''src'', ''components'', ''ships'', ''player'', ''prefabs''],
    [''src'', ''components'', ''ships'', ''player'', ''controls''],
    [''src'', ''components'', ''ships'', ''factions''],
    [''src'', ''components'', ''ships'', ''factions'', ''spaceRats''],
    [''src'', ''components'', ''ships'', ''factions'', ''lostNova''],
    [''src'', ''components'', ''ships'', ''factions'', ''equatorHorizon''],
    [''src'', ''components'', ''combat''],
    [''src'', ''components'', ''ui''],
    [''src'', ''components'', ''colony''],
    [''src'', ''components'', ''mining''],
    [''src'', ''components'', ''exploration''],
    [''src'', ''components'', ''visual''],
    [''src'', ''components'', ''debug''],
    [''src'', ''effects''],
    [''src'', ''effects'', ''combat''],
    [''src'', ''effects'', ''visual''],
    [''src'', ''effects'', ''particles''],
    [''src'', ''hooks''],
    [''src'', ''hooks'', ''factions''],
    [''src'', ''hooks'', ''combat''],
    [''src'', ''hooks'', ''ui''],
    [''src'', ''hooks'', ''game''],
    [''src'', ''hooks'', ''debug''],
    [''src'', ''lib''],
    [''src'', ''lib'', ''factions''],
    [''src'', ''lib'', ''combat''],
    [''src'', ''lib'', ''ai''],
    [''src'', ''lib'', ''game''],
    [''src'', ''utils''],
    [''src'', ''utils'', ''math''],
    [''src'', ''utils'', ''types''],
    [''src'', ''contexts''],
    [''src'', ''styles''],
    [''src'', ''styles'', ''components''],
    [''src'', ''styles'', ''effects''],
    [''src'', ''styles'', ''ui'']]"

definition FILE_MOVES :: "(path \<times> path) list" where
  "FILE_MOVES = [
    ([''src'', ''components'', ''factions'', ''types'', ''FactionTypes.ts''],
      [''src'', ''types'', ''factions'', ''FactionTypes.ts'']),
    ([''src'', ''components'', ''factions'', ''types'', ''ShipTypes.ts''],
      [''src'', ''types'', ''ships'', ''ShipTypes.ts'']),
    ([''src'', ''components'', ''factions'', ''types'', ''CombatTypes.ts''],
      [''src'', ''types'', ''combat'', ''CombatTypes.ts'']),
    ([''src'', ''components'', ''factions'', ''factionTypes'', ''ship.ts''],
      [''src'', ''types'', ''ships'', ''ship.ts'']),
    ([''src'', ''components'', ''factions'', ''types'', ''index.ts''],
      [''src'', ''types'', ''index.ts'']),
    ([''src'', ''components'', ''factions'', ''types'', ''common.ts''],
      [''src'', ''types'', ''common.ts'']),
    ([''src'', ''components'', ''factions'', ''types'', ''UITypes.ts''],
      [''src'', ''types'', ''ui'', ''UITypes.ts'']),
    ([''src'', ''components'', ''factions'', ''config'', ''factionConfig.ts''],
      [''src'', ''config'', ''factions'', ''factionConfig.ts'']),
    ([''src'', ''components'', ''factions'', ''config'', ''shipStats.ts''],
      [''src'', ''config'', ''ships'', ''shipStats.ts'']),
    ([''src'', ''components'', ''factions'', ''config'', ''weaponConfig.ts''],
      [''src'', ''config'', ''combat'', ''weaponConfig.ts'']),
    ([''src'', ''components'', ''factions'', ''config'', ''factionShipStats.ts''],
      [''src'', ''config'', ''factions'', ''factionShipStats.ts'']),
    ([''src'', ''config'', ''playerShipStats.ts''],
      [''src'', ''config'', ''ships'', ''playerShipStats.ts'']),
    ([''src'', ''components'', ''factions'', ''ships'', ''components'', ''ShipBase.tsx''],
      [''src'', ''components'', ''ships'', ''common'', ''ShipBase.tsx'']),
    ([''src'', ''components'', ''factions'', ''ships'', ''components'', ''WeaponMount.tsx''],
      [''src'', ''components'', ''ships'', ''common'', ''WeaponMount.tsx'']),
    ([''src'', ''components'', ''ships'', ''common'', ''ShipStats.tsx''],
      [''src'', ''components'', ''ships'', ''common'', ''ShipStats.tsx'']),
    ([''src'', ''components'', ''ships'', ''common'', ''ShipControls.tsx''],
      [''src'', ''components'', ''ships'', ''common'', ''ShipControls.tsx'']),
    ([''src'', ''components'', ''ships'', ''common'', ''ShipHealth.tsx''],
      [''src'', ''components'', ''ships'', ''common'', ''ShipHealth.tsx'']),
    ([''src'', ''components'', ''ships'', ''common'', ''ShipShields.tsx''],
      [''src'', ''components'', ''ships'', ''common'', ''ShipShields.tsx'']),
    ([''src'', ''components'', ''ships'', ''common'', ''ShipWeapons.tsx''],
      [''src'', ''components'', ''ships'', ''common'', ''ShipWeapons.tsx'']),
    ([''src'', ''components'', ''playerShips'', ''WarShipCombat.tsx''],
      [''src'', ''components'', ''ships'', ''player'', ''WarShipCombat.tsx'']),
    ([''src'', ''components'', ''playerShips'', ''PlayerShipControls.tsx''],
      [''src'', ''components'', ''ships'', ''player'', ''controls'', ''PlayerShipControls.tsx'']),
    ([''src'', ''components'', ''playerShips'', ''PlayerWeaponControls.tsx''],
      [''src'', ''components'', ''ships'', ''player'', ''controls'', ''PlayerWeaponControls.tsx'']),
    ([''src'', ''components'', ''factions'', ''ships'', ''spaceRats'', ''RatKing.tsx''],
      [''src'', ''components'', ''ships'', ''factions'', ''spaceRats'', ''RatKing.tsx'']),
    ([''src'', ''components'', ''factions'', ''ships'', ''spaceRats'', ''AsteroidMarauder.tsx''],
      [''src'', ''components'', ''ships'', ''factions'', ''spaceRats'', ''AsteroidMarauder.tsx'']),
    ([''src'', ''components'', ''factions'', ''ships'', ''spaceRats'', ''RogueNebula.tsx''],
      [''src'', ''components'', ''ships'', ''factions'', ''spaceRats'', ''RogueNebula.tsx'']),
    ([''src'', ''components'', ''factions'', ''ships'', ''lostNova'', ''EclipseScythe.tsx''],
      [''src'', ''components'', ''ships'', ''factions'', ''lostNova'', ''EclipseScythe.tsx'']),
    ([''src'', ''components'', ''factions'', ''ships'', ''lostNova'', ''DarkMatterReaper.tsx''],
      [''src'', ''components'', ''ships'', ''factions'', ''lostNova'', ''DarkMatterReaper.tsx'']),
    ([''src'', ''components'', ''factions'', ''ships'', ''lostNova'', ''NullHunter.tsx''],
      [''src'', ''components'', ''ships'', ''factions'', ''lostNova'', ''NullHunter.tsx'']),
    ([''src'', ''components'', ''factions'', ''ships'', ''equatorHorizon'', ''CelestialArbiter.tsx''],
      [''src'', ''components'', ''ships'', ''factions'', ''equatorHorizon'', ''CelestialArbiter.tsx'']),
    ([''src'', ''components'', ''factions'', ''ships'', ''equatorHorizon'', ''EtherealGalleon.tsx''],
      [''src'', ''components'', ''ships'', ''factions'', ''equatorHorizon'', ''EtherealGalleon.tsx'']),
    ([''src'', ''components'', ''factions'', ''ships'', ''equatorHorizon'', ''StellarEquinox.tsx''],
      [''src'', ''components'', ''ships'', ''factions'', ''equatorHorizon'', ''StellarEquinox.tsx'']),
    ([''src'', ''components'', ''factions'', ''FactionAI.tsx''],
      [''src'', ''components'', ''ships'', ''factions'', ''FactionAI.tsx'']),
    ([''src'', ''components'', ''factions'', ''FactionFleet.tsx''],
      [''src'', ''components'', ''ships'', ''factions'', ''FactionFleet.tsx'']),
    ([''src'', ''components'', ''factions'', ''FactionManager.tsx''],
      [''src'', ''components'', ''ships'', ''factions'', ''FactionManager.tsx'']),
    ([''src'', ''components'', ''factions'', ''SpaceRatShip.tsx''],
      [''src'', ''components'', ''ships'', ''factions'', ''spaceRats'', ''SpaceRatShip.tsx'']),
    ([''src'', ''components'', ''factions'', ''LostNovaShip.tsx''],
      [''src'', ''components'', ''ships'', ''factions'', ''lostNova'', ''LostNovaShip.tsx'']),
    ([''src'', ''components'', ''factions'', ''EquatorHorizonShip.tsx''],
      [''src'', ''components'', ''ships'', ''factions'', ''equatorHorizon'', ''EquatorHorizonShip.tsx'']),
    ([''src'', ''components'', ''combat'', ''CombatManager.tsx''],
      [''src'', ''components'', ''combat'', ''CombatManager.tsx'']),
    ([''src'', ''components'', ''combat'', ''CombatUI.tsx''],
      [''src'', ''components'', ''combat'', ''CombatUI.tsx'']),
    ([''src'', ''components'', ''combat'', ''DamageIndicator.tsx''],
      [''src'', ''components'', ''combat'', ''DamageIndicator.tsx'']),
    ([''src'', ''components'', ''combat'', ''TargetingSystem.tsx''],
      [''src'', ''components'', ''combat'', ''TargetingSystem.tsx'']),
    ([''src'', ''components'', ''combat'', ''WeaponSystem.tsx''],
      [''src'', ''components'', ''combat'', ''WeaponSystem.tsx'']),
    ([''src'', ''components'', ''combat'', ''ShieldSystem.tsx''],
      [''src'', ''components'', ''combat'', ''ShieldSystem.tsx'']),
    ([''src'', ''components'', ''combat'', ''PowerSystem.tsx''],
      [''src'', ''components'', ''combat'', ''PowerSystem.tsx'']),
    ([''src'', ''components'', ''combat'', ''SalvageSystem.tsx''],
      [''src'', ''components'', ''combat'', ''SalvageSystem.tsx'']),
    ([''src'', ''components'', ''ui'', ''ShipCard.tsx''],
      [''src'', ''components'', ''ui'', ''ShipCard.tsx'']),
    ([''src'', ''components'', ''ui'', ''WeaponCard.tsx''],
      [''src'', ''components'', ''ui'', ''WeaponCard.tsx'']),
    ([''src'', ''components'', ''ui'', ''StatusBar.tsx''],
      [''src'', ''components'', ''ui'', ''StatusBar.tsx'']),
    ([''src'', ''components'', ''ui'', ''ResourceDisplay.tsx''],
      [''src'', ''components'', ''ui'', ''ResourceDisplay.tsx'']),
    ([''src'', ''components'', ''ui'', ''Tooltip.tsx''],
      [''src'', ''components'', ''ui'', ''Tooltip.tsx'']),
    ([''src'', ''components'', ''ui'', ''Modal.tsx''],
      [''src'', ''components'', ''ui'', ''Modal.tsx'']),
    ([''src'', ''components'', ''effects'', ''WeaponEffect.tsx''],
      [''src'', ''effects'', ''combat'', ''WeaponEffect.tsx'']),
    ([''src'', ''components'', ''effects'', ''ExplosionEffect.tsx''],
      [''src'', ''effects'', ''combat'', ''ExplosionEffect.tsx'']),
    ([''src'', ''components'', ''effects'', ''ShieldEffect.tsx''],
      [''src'', ''effects'', ''combat'', ''ShieldEffect.tsx'']),
    ([''src'', ''components'', ''effects'', ''ThrusterEffect.tsx''],
      [''src'', ''effects'', ''visual'', ''ThrusterEffect.tsx'']),
    ([''src'', ''components'', ''effects'', ''SmokeTrailEffect.tsx''],
      [''src'', ''effects'', ''visual'', ''SmokeTrailEffect.tsx'']),
    ([''src'', ''components'', ''factions'', ''factionHooks'', ''useFactionBehavior.ts''],
      [''src'', ''hooks'', ''factions'', ''useFactionBehavior.ts'']),
    ([''src'', ''components'', ''factions'', ''factionHooks'', ''useFactionAI.ts''],
      [''src'', ''hooks'', ''factions'', ''useFactionAI.ts'']),
    ([''src'', ''components'', ''factions'', ''factionHooks'', ''useEnemyAI.ts''],
      [''src'', ''hooks'', ''factions'', ''useEnemyAI.ts'']),
    ([''src'', ''hooks'', ''useFleetAI.ts''],
      [''src'', ''hooks'', ''factions'', ''useFleetAI.ts'']),
    ([''src'', ''hooks'', ''useAdaptiveAI.ts''],
      [''src'', ''hooks'', ''factions'', ''useAdaptiveAI.ts'']),
    ([''src'', ''hooks'', ''useCombatSystem.ts''],
      [''src'', ''hooks'', ''combat'', ''useCombatSystem.ts'']),
    ([''src'', ''hooks'', ''useTooltip.ts''],
      [''src'', ''hooks'', ''ui'', ''useTooltip.ts'']),
    ([''src'', ''hooks'', ''useGameState.ts''],
      [''src'', ''hooks'', ''game'', ''useGameState.ts'']),
    ([''src'', ''components'', ''factions'', ''factionLib'', ''factionManager.ts''],
      [''src'', ''lib'', ''factions'', ''factionManager.ts'']),
    ([''src'', ''lib'', ''combatManager.ts''],
      [''src'', ''lib'', ''combat'', ''combatManager.ts'']),
    ([''src'', ''lib'', ''gameManager.ts''],
      [''src'', ''lib'', ''game'', ''gameManager.ts'']),
    ([''src'', ''lib'', ''ai'', ''behaviorTree.ts''],
      [''src'', ''lib'', ''ai'', ''behaviorTree.ts'']),
    ([''src'', ''lib'', ''ai'', ''pathfinding.ts''],
      [''src'', ''lib'', ''ai'', ''pathfinding.ts'']),
    ([''src'', ''lib'', ''ai'', ''decisionMaking.ts''],
      [''src'', ''lib'', ''ai'', ''decisionMaking.ts'']),
    ([''src'', ''lib'', ''factions'', ''factionAI.ts''],
      [''src'', ''lib'', ''factions'', ''factionAI.ts'']),
    ([''src'', ''lib'', ''factions'', ''fleetManager.ts''],
      [''src'', ''lib'', ''factions'', ''fleetManager.ts'']),
    ([''src'', ''lib'', ''combat'', ''weaponSystem.ts''],
      [''src'', ''lib'', ''combat'', ''weaponSystem.ts'']),
    ([''src'', ''lib'', ''combat'', ''damageCalculator.ts''],
      [''src'', ''lib'', ''combat'', ''damageCalculator.ts'']),
    ([''src'', ''lib'', ''game'', ''saveManager.ts''],
      [''src'', ''lib'', ''game'', ''saveManager.ts'']),
    ([''src'', ''lib'', ''game'', ''resourceManager.ts''],
      [''src'', ''lib'', ''game'', ''resourceManager.ts'']),
    ([''src'', ''utils'', ''math.ts''],
      [''src'', ''utils'', ''math.ts'']),
    ([''src'', ''utils'', ''idGenerator.ts''],
      [''src'', ''utils'', ''idGenerator.ts'']),
    ([''src'', ''utils'', ''helpers.ts''],
      [''src'', ''utils'', ''helpers.ts'']),
    ([''src'', ''utils'', ''constants.ts''],
      [''src'', ''utils'', ''constants.ts'']),
    ([''src'', ''utils'', ''types.ts''],
      [''src'', ''utils'', ''types.ts'']),
    ([''src'', ''contexts'', ''GameContext.tsx''],
      [''src'', ''contexts'', ''GameContext.tsx'']),
    ([''src'', ''contexts'', ''ThresholdContext.tsx''],
      [''src'', ''contexts'', ''ThresholdContext.tsx'']),
    ([''src'', ''contexts'', ''CombatContext.tsx''],
      [''src'', ''contexts'', ''CombatContext.tsx'']),
    ([''src'', ''contexts'', ''FactionContext.tsx''],
      [''src'', ''contexts'', ''FactionContext.tsx''])]"

definition EXTRA_WARN_FILES :: "path list" where
  "EXTRA_WARN_FILES = [
    [''src'', ''contexts'', ''ThresholdTypes.ts''],
    [''src'', ''components'', ''factions'', ''DiplomacyPanel.tsx''],
    [''src'', ''components'', ''debug'', ''AIDebugOverlay.tsx''],
    [''src'', ''hooks'', ''useDebugOverlay.ts''],
    [''src'', ''components'', ''factions'', ''types'', ''index.ts'']]"

subsection \<open>\<^verbatim>\<open>ProgressTracker\<close>\<close>

record ProgressTracker =
  total_operations :: nat
  completed_operations :: nat
  errors :: "string list"
  warnings :: "string list"

type_synonym state = "ProgressTracker \<times> world"

definition ProgressTracker_init :: ProgressTracker where
  "ProgressTracker_init =
     \<lparr>total_operations = 0, completed_operations = 0, errors = [], warnings = []\<rparr>"

definition add_error :: "string \<Rightarrow> state \<Rightarrow> state" where
  "add_error message st =
     ((fst st)\<lparr>errors := errors (fst st) @ [message]\<rparr>, logging ERROR message (snd st))"

definition add_warning :: "string \<Rightarrow> state \<Rightarrow> state" where
  "add_warning message st =
     ((fst st)\<lparr>warnings := warnings (fst st) @ [message]\<rparr>, logging WARNING message (snd st))"

text \<open>\<^verbatim>\<open>increment\<close> also rewrites the progress line on standard output (only when
  \<open>total_operations > 0\<close>); standard output is not part of the model.\<close>

definition increment :: "state \<Rightarrow> state" where
  "increment st = ((fst st)\<lparr>completed_operations := completed_operations (fst st) + 1\<rparr>, snd st)"

definition set_total :: "nat \<Rightarrow> state \<Rightarrow> state" where
  "set_total n st = ((fst st)\<lparr>total_operations := n\<rparr>, snd st)"

text \<open>The report, by its parts: the two counts, the success rate
  \<open>completed / total * 100\<close> (a rational here; the script prints it with one decimal)
  and the itemised errors and warnings. The division raises when the total is zero.\<close>

record report =
  r_total :: nat
  r_completed :: nat
  r_success_rate :: rat
  r_errors :: "string list"
  r_warnings :: "string list"

definition generate_report :: "ProgressTracker \<Rightarrow> exn + report" where
  "generate_report pr =
     (if total_operations pr = 0 then Inl ZeroDivisionError
      else Inr \<lparr>r_total = total_operations pr,
                r_completed = completed_operations pr,
                r_success_rate =
                  of_nat (completed_operations pr) / of_nat (total_operations pr) * 100,
                r_errors = errors pr,
                r_warnings = warnings pr\<rparr>)"

subsection \<open>\<^verbatim>\<open>create_new_directories\<close>\<close>

fun create_dirs :: "path list \<Rightarrow> bool \<Rightarrow> world \<Rightarrow> world" where
  "create_dirs [] dry_run w = w"
| "create_dirs (directory # ds) dry_run w =
     create_dirs ds dry_run
       (if os_path_isdir (root w) directory then
          logging INFO (''Directory already exists: '' @ path_str directory) w
        else if dry_run then
          logging INFO (''[DRY RUN] Would create directory: '' @ path_str directory) w
        else
          (case os_makedirs (root w) directory of
             Inr fs \<Rightarrow>
               logging INFO (''Created directory: '' @ path_str directory) (w\<lparr>root := fs\<rparr>)
           | Inl e \<Rightarrow>
               logging ERROR
                 (''Error creating directory '' @ path_str directory @ '': '' @ exn_str e) w))"

definition create_new_directories :: "bool \<Rightarrow> world \<Rightarrow> world" where
  "create_new_directories dry_run w =
     create_dirs NEW_DIRS dry_run (logging INFO ''Creating new directory structure ...'' w)"

subsection \<open>\<^verbatim>\<open>move_file\<close>\<close>

definition move_file :: "path \<Rightarrow> path \<Rightarrow> bool \<Rightarrow> state \<Rightarrow> state" where
  "move_file src dst dry_run st =
     (if \<not> os_path_exists (root (snd st)) src then
        add_warning (''Source file not found (skipped): '' @ path_str src) st
      else
        let dst_dir = os_path_dirname dst;
            made =
              (if os_path_isdir (root (snd st)) dst_dir then Inr st
               else if dry_run then
                 Inr (fst st, logging INFO
                   (''[DRY RUN] Would create directory for destination: '' @ path_str dst_dir)
                   (snd st))
               else
                 (case os_makedirs (root (snd st)) dst_dir of
                    Inr fs \<Rightarrow>
                      Inr (fst st, logging INFO
                        (''Created directory for destination: '' @ path_str dst_dir)
                        ((snd st)\<lparr>root := fs\<rparr>))
                  | Inl e \<Rightarrow>
                      Inl (add_error
                        (''Error creating destination directory '' @ path_str dst_dir @ '': ''
                           @ exn_str e) st)))
        in
        case made of
          Inl st' \<Rightarrow> st'
        | Inr st1 \<Rightarrow>
            if dry_run then
              increment (fst st1, logging INFO
                (''[DRY RUN] Would move: '' @ path_str src @ '' -> '' @ path_str dst) (snd st1))
            else
              (case shutil_move (root (snd st1)) src dst of
                 Inr fs \<Rightarrow>
                   increment (fst st1, logging INFO
                     (''Moved: '' @ path_str src @ '' -> '' @ path_str dst)
                     ((snd st1)\<lparr>root := fs\<rparr>))
               | Inl e \<Rightarrow>
                   add_error (''Error moving '' @ path_str src @ '' to '' @ path_str dst
                     @ '': '' @ exn_str e) st1))"

text \<open>The two \<^verbatim>\<open>for\<close> loops that call \<^verbatim>\<open>move_file\<close>, with the injection point
  before each call. An exception leaves the loop with the state reached so far.\<close>

fun move_each :: "(path \<times> path) list \<Rightarrow> bool \<Rightarrow> state \<Rightarrow> exn option \<times> state" where
  "move_each [] dry_run st = (None, st)"
| "move_each ((src, dst) # ms) dry_run st =
     (case inject (snd st) of
        (Some e, w) \<Rightarrow> (Some e, (fst st, w))
      | (None, w) \<Rightarrow> move_each ms dry_run (move_file src dst dry_run (fst st, w)))"

subsection \<open>\<^verbatim>\<open>process_file_moves\<close>\<close>

definition moves_needed :: "node \<Rightarrow> (path \<times> path) list" where
  "moves_needed fs =
     filter (\<lambda>(src, dst). os_path_exists fs src \<and> \<not> os_path_exists fs dst) FILE_MOVES"

text \<open>Decimal digits of a number, as an f-string prints it.\<close>

function show_nat :: "nat \<Rightarrow> string" where
  "show_nat n =
     (if n < 10 then [''0123456789'' ! n]
      else show_nat (n div 10) @ [''0123456789'' ! (n mod 10)])"
  by pat_completeness auto
termination
  by (relation "measure (\<lambda>n. n)") auto

declare show_nat.simps [simp del]

definition process_file_moves :: "bool \<Rightarrow> state \<Rightarrow> exn option \<times> state" where
  "process_file_moves dry_run st =
     (let w = logging INFO ''Processing explicit file moves ...'' (snd st);
          needed = moves_needed (root w);
          skipped = length FILE_MOVES - length needed
      in
      case move_each needed dry_run (set_total (length needed) (fst st, w)) of
        (Some e, st') \<Rightarrow> (Some e, st')
      | (None, st') \<Rightarrow>
          (None,
           if skipped > 0 then
             (fst st', logging INFO
                (''Skipped '' @ show_nat skipped @ '' files that were already moved or missing.'')
                (snd st'))
           else st'))"

subsection \<open>\<^verbatim>\<open>reorganize_styles\<close>\<close>

definition styles_root :: path where
  "styles_root = [''src'', ''styles'']"

definition is_css :: "(string \<Rightarrow> string) \<Rightarrow> node \<Rightarrow> string \<Rightarrow> bool" where
  "is_css lower fs item =
     (os_path_isfile fs (os_path_join styles_root item) \<and> str_endswith (lower item) ''.css'')"

definition css_category :: "(string \<Rightarrow> string) \<Rightarrow> string \<Rightarrow> string" where
  "css_category lower item =
     (let lower_name = lower item in
      if str_in ''effects'' lower_name \<or> str_in ''vpr-effects'' lower_name then ''effects''
      else if str_in ''ui'' lower_name \<or> str_in ''vpr-system'' lower_name then ''ui''
      else ''components'')"

text \<open>The dictionary \<^verbatim>\<open>css_files\<close>, in the order of its keys, flattened to the list
  of moves the last loop performs.\<close>

definition css_moves :: "(string \<Rightarrow> string) \<Rightarrow> node \<Rightarrow> (path \<times> path) list" where
  "css_moves lower fs =
     concat (map
       (\<lambda>category.
          map (\<lambda>file. (os_path_join styles_root file,
                        os_path_join (os_path_join styles_root category) file))
            (filter (\<lambda>item. is_css lower fs item \<and> css_category lower item = category)
               (os_listdir fs styles_root)))
       [''effects'', ''ui'', ''components''])"

definition reorganize_styles :: "bool \<Rightarrow> state \<Rightarrow> exn option \<times> state" where
  "reorganize_styles dry_run st =
     (let st1 = (fst st, logging INFO ''Reorganizing CSS files ...'' (snd st));
          fs = root (snd st1);
          lower = str_lower (snd st1)
      in
      if \<not> os_path_isdir fs styles_root then
        (None, add_warning (''Styles folder not found: '' @ path_str styles_root) st1)
      else
        let total_css_files = length (filter (is_css lower fs) (os_listdir fs styles_root)) in
        move_each (css_moves lower fs) dry_run
          (set_total (total_operations (fst st1) + total_css_files) st1))"

subsection \<open>\<^verbatim>\<open>check_extra_files\<close>\<close>

fun warn_extra :: "path list \<Rightarrow> world \<Rightarrow> world" where
  "warn_extra [] w = w"
| "warn_extra (f # fs) w =
     warn_extra fs
       (if os_path_exists (root w) f then
          logging WARNING (''Extra file found: '' @ path_str f) w
        else logging INFO (''Extra file not found (OK): '' @ path_str f) w)"

definition check_extra_files :: "world \<Rightarrow> world" where
  "check_extra_files w =
     warn_extra EXTRA_WARN_FILES
       (logging INFO ''Checking for extra files that may not belong ...'' w)"

subsection \<open>Backup and restore\<close>

definition backup_name :: "world \<Rightarrow> path" where
  "backup_name w = [''src_backup_'' @ clock w]"

definition create_backup :: "bool \<Rightarrow> world \<Rightarrow> path option \<times> world" where
  "create_backup dry_run w =
     (let backup_dir = backup_name w in
      if \<not> dry_run then
        (case shutil_copytree (root w) [''src''] backup_dir of
           Inr fs \<Rightarrow>
             (Some backup_dir,
              logging INFO (''Created backup at: '' @ path_str backup_dir) (w\<lparr>root := fs\<rparr>))
         | Inl e \<Rightarrow>
             (None, logging ERROR (''Failed to create backup: '' @ exn_str e) w))
      else (None, w))"

definition restore_from_backup :: "path \<Rightarrow> bool \<Rightarrow> world \<Rightarrow> bool \<times> world" where
  "restore_from_backup backup_dir dry_run w =
     (if \<not> dry_run \<and> os_path_exists (root w) backup_dir then
        (case shutil_rmtree (root w) [''src''] of
           Inl e \<Rightarrow> (False, logging ERROR (''Failed to restore from backup: '' @ exn_str e) w)
         | Inr fs1 \<Rightarrow>
             (case shutil_copytree fs1 backup_dir [''src''] of
                Inl e \<Rightarrow>
                  (False, logging ERROR (''Failed to restore from backup: '' @ exn_str e)
                     (w\<lparr>root := fs1\<rparr>))
              | Inr fs2 \<Rightarrow>
                  (True, logging INFO (''Restored from backup: '' @ path_str backup_dir)
                     (w\<lparr>root := fs2\<rparr>))))
      else (False, w))"

subsection \<open>Validation\<close>

definition validate_environment :: "world \<Rightarrow> bool \<times> world" where
  "validate_environment w =
     (if \<not> os_path_isdir (root w) [''src''] then
        (False, logging ERROR ''No 'src' directory found. Are you in the project root?'' w)
      else if \<not> os_path_isdir (root w) [''src'', ''components''] then
        (False, logging ERROR
           (''Required directory not found: '' @ path_str [''src'', ''components'']) w)
      else if \<not> os_path_isdir (root w) [''src'', ''components'', ''factions''] then
        (False, logging ERROR
           (''Required directory not found: ''
              @ path_str [''src'', ''components'', ''factions'']) w)
      else (True, w))"

text \<open>The \<^verbatim>\<open>while parent:\<close> loop of \<^verbatim>\<open>validate_file_moves\<close>: the nearest ancestor
  that is a plain file, if there is one.\<close>

function parent_clash :: "node \<Rightarrow> path \<Rightarrow> path option" where
  "parent_clash fs parent =
     (if parent = [] then None
      else if os_path_isfile fs parent then Some parent
      else parent_clash fs (os_path_dirname parent))"
  by pat_completeness auto
termination
  by (relation "measure (\<lambda>(fs, parent). length parent)") (auto simp: os_path_dirname_def)

declare parent_clash.simps [simp del]

record validation =
  issues_found :: bool
  already_moved :: "(path \<times> path) list"
  missing_sources :: "path list"

fun validate_each :: "(path \<times> path) list \<Rightarrow> validation \<times> world \<Rightarrow> validation \<times> world" where
  "validate_each [] vw = vw"
| "validate_each ((src, dst) # ms) vw =
     validate_each ms
       (let v = fst vw; w = snd vw; fs = root w in
        if os_path_exists fs dst \<and> \<not> os_path_exists fs src then
          (v\<lparr>already_moved := already_moved v @ [(src, dst)]\<rparr>, w)
        else if \<not> os_path_exists fs src \<and> \<not> os_path_exists fs dst then
          (v\<lparr>missing_sources := missing_sources v @ [src]\<rparr>, w)
        else
          let vw1 =
                (if os_path_exists fs src \<and> os_path_exists fs dst then
                   (v\<lparr>issues_found := True\<rparr>,
                    logging ERROR (''Both source and destination exist: '' @ path_str src
                      @ '' -> '' @ path_str dst) w)
                 else (v, w))
          in
          case parent_clash fs (os_path_dirname dst) of
            Some parent \<Rightarrow>
              ((fst vw1)\<lparr>issues_found := True\<rparr>,
               logging ERROR (''Parent path is a file: '' @ path_str parent) (snd vw1))
          | None \<Rightarrow> vw1)"

fun log_each :: "level \<Rightarrow> string list \<Rightarrow> world \<Rightarrow> world" where
  "log_each lv [] w = w"
| "log_each lv (m # ms) w = log_each lv ms (logging lv m w)"

definition validate_file_moves :: "world \<Rightarrow> bool \<times> world" where
  "validate_file_moves w =
     (let (v, w1) =
            validate_each FILE_MOVES
              (\<lparr>issues_found = False, already_moved = [], missing_sources = []\<rparr>, w);
          w2 =
            (if already_moved v \<noteq> [] then
               log_each INFO
                 (map (\<lambda>(src, dst). ''  '' @ path_str src @ '' -> '' @ path_str dst)
                    (already_moved v))
                 (logging INFO ''Files that appear to be already moved:'' w1)
             else w1);
          w3 =
            (if missing_sources v \<noteq> [] then
               log_each WARNING (map (\<lambda>src. ''  '' @ path_str src) (missing_sources v))
                 (logging WARNING ''Files that are missing and need to be created:'' w2)
             else w2)
      in (\<not> issues_found v, w3))"

text \<open>\<^verbatim>\<open>os.walk("src")\<close> yields nothing when \<^verbatim>\<open>src\<close> is not a directory, and the
  size is then 0. The error message is modelled without its figures (two floats
  printed with two decimals).\<close>

definition check_disk_space :: "bool \<Rightarrow> world \<Rightarrow> bool \<times> world" where
  "check_disk_space backup w =
     (let src_size =
            (case node_at (root w) [''src''] of Some (Dir es) \<Rightarrow> tree_size (Dir es) | _ \<Rightarrow> 0)
      in
      case int_times_float (src_size * (if backup then 2 else 1)) float_1_2 of
        Inl e \<Rightarrow> (False, logging ERROR (''Error checking disk space: '' @ exn_str e) w)
      | Inr required_space \<Rightarrow>
          if (case required_space of
                None \<Rightarrow> True
              | Some r \<Rightarrow> of_nat (free_space w) < r)
          then (False, logging ERROR ''Insufficient disk space.'' w)
          else (True, w))"

subsection \<open>\<^verbatim>\<open>main\<close> and the script's entry point\<close>

text \<open>How a call of \<^verbatim>\<open>main\<close> ends: it returns after an abort message, after the
  final report of the \<^verbatim>\<open>try\<close> block, after the error report of the \<^verbatim>\<open>except\<close>
  block, or an exception leaves it.\<close>

datatype outcome = Aborted | Completed report | RolledBack report | Crashed exn

definition main_try :: "bool \<Rightarrow> path option \<Rightarrow> state \<Rightarrow> (exn + report) \<times> state" where
  "main_try dry_run backup_dir st =
     (case process_file_moves dry_run (fst st, create_new_directories dry_run (snd st)) of
        (Some e, st1) \<Rightarrow> (Inl e, st1)
      | (None, st1) \<Rightarrow>
     (case reorganize_styles dry_run st1 of
        (Some e, st2) \<Rightarrow> (Inl e, st2)
      | (None, st2) \<Rightarrow>
     (let w3 = check_extra_files (snd st2);
          cleaned =
            (if dry_run then Inr (logging INFO ''Dry run completed. No changes were made.'' w3)
             else
               let w4 = logging INFO ''Restructuring completed successfully!'' w3 in
               case backup_dir of
                 None \<Rightarrow> Inr w4
               | Some b \<Rightarrow>
                   if os_path_exists (root w4) b then
                     (case shutil_rmtree (root w4) b of
                        Inl e \<Rightarrow> Inl (e, w4)
                      | Inr fs \<Rightarrow>
                          Inr (logging INFO (''Removed backup directory: '' @ path_str b)
                                 (w4\<lparr>root := fs\<rparr>)))
                   else Inr w4)
      in
      case cleaned of
        Inl (e, w) \<Rightarrow> (Inl e, (fst st2, w))
      | Inr w \<Rightarrow> (generate_report (fst st2), (fst st2, w)))))"

definition main_except :: "bool \<Rightarrow> path option \<Rightarrow> exn \<Rightarrow> state \<Rightarrow> outcome \<times> world" where
  "main_except dry_run backup_dir e st =
     (let st1 = add_error (''An error occurred during restructuring: '' @ exn_str e) st;
          w2 =
            (case backup_dir of
               None \<Rightarrow> snd st1
             | Some b \<Rightarrow>
                 if dry_run then snd st1
                 else
                   (case restore_from_backup b dry_run
                           (logging INFO ''Attempting to restore from backup...'' (snd st1)) of
                      (True, w) \<Rightarrow> logging INFO ''Successfully restored from backup.'' w
                    | (False, w) \<Rightarrow>
                        logging ERROR (''Failed to restore. Backup remains at: '' @ path_str b) w))
      in
      case generate_report (fst st1) of
        Inl e' \<Rightarrow> (Crashed e', w2)
      | Inr r \<Rightarrow> (RolledBack r, w2))"

definition main :: "bool \<Rightarrow> world \<Rightarrow> outcome \<times> world" where
  "main dry_run w =
     (case validate_environment w of
        (False, w1) \<Rightarrow>
          (Aborted, logging ERROR ''Environment validation failed. Aborting.'' w1)
      | (True, w1) \<Rightarrow>
     (let w2 = snd (validate_file_moves w1) in
      case check_disk_space (\<not> dry_run) w2 of
        (False, w3) \<Rightarrow> (Aborted, logging ERROR ''Disk space check failed. Aborting.'' w3)
      | (True, w3) \<Rightarrow>
     (case create_backup dry_run w3 of
        (backup_dir, w4) \<Rightarrow>
          if backup_dir = None \<and> \<not> dry_run then
            (Aborted, logging ERROR ''Failed to create backup. Aborting.'' w4)
          else
            (case main_try dry_run backup_dir (ProgressTracker_init, w4) of
               (Inr r, st) \<Rightarrow> (Completed r, snd st)
             | (Inl e, st) \<Rightarrow> main_except dry_run backup_dir e st))))"

text \<open>The \<^verbatim>\<open>if __name__ == "__main__"\<close> block, with the exit status of the process:
  \<^verbatim>\<open>sys.exit(1)\<close>, 1 for an exception that leaves \<^verbatim>\<open>main\<close> (the interpreter's
  traceback), 0 when \<^verbatim>\<open>main\<close> returns.\<close>

definition script :: "bool \<Rightarrow> world \<Rightarrow> nat \<times> world" where
  "script dry_run w =
     (if \<not> os_path_isdir (root w) [''src''] then
        (1, logging ERROR
           ''This script must be run from the project root (the folder containing 'src').'' w)
      else
        (case main dry_run w of
           (Crashed e, w') \<Rightarrow> (1, w')
         | (out, w') \<Rightarrow> (0, w')))"

section \<open>Vocabulary of the proofs\<close>

text \<open>Two paths are unrelated when neither lies on the way to the other. The kind of
  a path is what \<^verbatim>\<open>os.path\<close> can tell about it: absent, a file with its bytes, or a
  directory.\<close>

definition unrelated :: "path \<Rightarrow> path \<Rightarrow> bool" where
  "unrelated p q = (\<not> prefix p q \<and> \<not> prefix q p)"

datatype kind = KFile string | KDir

fun kind_of :: "node \<Rightarrow> kind" where
  "kind_of (File c) = KFile c"
| "kind_of (Dir es) = KDir"

definition kind_at :: "node \<Rightarrow> path \<Rightarrow> kind option" where
  "kind_at t p = map_option kind_of (node_at t p)"

text \<open>The shape of the configured paths: a file path ends in a name with a dot and has
  no dot in the directories above it; a directory path has no dot at all.\<close>

definition dotted :: "string \<Rightarrow> bool" where
  "dotted c = (CHR ''.'' \<in> set c)"

definition dir_path :: "path \<Rightarrow> bool" where
  "dir_path p = list_all (\<lambda>c. \<not> dotted c) p"

definition file_path :: "path \<Rightarrow> bool" where
  "file_path p = (p \<noteq> [] \<and> dotted (last p) \<and> dir_path (butlast p))"

text \<open>The names in a directory that are plain files.\<close>

definition file_names :: "node \<Rightarrow> path \<Rightarrow> string list" where
  "file_names t q = filter (\<lambda>x. os_path_isfile t (q @ [x])) (os_listdir t q)"

subsection \<open>Sample worlds\<close>

text \<open>A project root whose \<^verbatim>\<open>src\<close> lacks the required \<^verbatim>\<open>src/components\<close>.\<close>

definition w_nocomp :: world where
  "w_nocomp =
     \<lparr>root = Dir [(''src'', Dir [])], free_space = 0, clock = [], logs = [],
       str_lower = ascii_lower, fuse = None\<rparr>"

text \<open>A stylesheet at the top level of \<^verbatim>\<open>src/styles\<close> and a file of the same name
  already in its bucket.\<close>

definition fs_clash :: node where
  "fs_clash =
     Dir [(''src'', Dir [(''styles'',
       Dir [(''panel.css'', File ''new''),
            (''components'', Dir [(''panel.css'', File ''old'')])])])]"

definition w_clash :: world where
  "w_clash = \<lparr>root = fs_clash, free_space = 0, clock = [], logs = [],
       str_lower = ascii_lower, fuse = None\<rparr>"

text \<open>A stylesheet named \<^verbatim>\<open>vpr-system.css\<close> at the top level of \<^verbatim>\<open>src/styles\<close>.\<close>

definition fs_vpr :: node where
  "fs_vpr = Dir [(''src'', Dir [(''styles'', Dir [(''vpr-system.css'', File ''v'')])])]"

text \<open>A small project: the two required directories, two files the mapping moves,
  one file it maps to itself, and two top-level stylesheets.\<close>

definition fs_demo :: node where
  "fs_demo =
     Dir [(''src'',
       Dir [(''components'', Dir [(''factions'', Dir [])]),
            (''hooks'', Dir [(''useFleetAI.ts'', File ''fleet'')]),
            (''lib'', Dir [(''combatManager.ts'', File ''combat'')]),
            (''utils'', Dir [(''math.ts'', File ''math'')]),
            (''styles'', Dir [(''panel.css'', File ''p''), (''glow-effects.css'', File ''g'')])])]"

definition w_demo :: world where
  "w_demo = \<lparr>root = fs_demo, free_space = 1000, clock = ''20250101_120000'', logs = [],
       str_lower = ascii_lower, fuse = None\<rparr>"

text \<open>The migration phase of the \<^verbatim>\<open>try\<close> block of \<^verbatim>\<open>main\<close>: the directory
  skeleton, the mapped moves and the style re-bucketing, from a fresh tracker.\<close>

definition migrate :: "bool \<Rightarrow> world \<Rightarrow> exn option \<times> state" where
  "migrate dry_run w =
     (case process_file_moves dry_run (ProgressTracker_init, create_new_directories dry_run w) of
        (Some e, st1) \<Rightarrow> (Some e, st1)
      | (None, st1) \<Rightarrow> reorganize_styles dry_run st1)"

text \<open>The top-level stylesheets of a tree, as \<^verbatim>\<open>reorganize_styles\<close> counts them.\<close>

definition css_files :: "(string \<Rightarrow> string) \<Rightarrow> node \<Rightarrow> string list" where
  "css_files lower fs = filter (is_css lower fs) (os_listdir fs styles_root)"

section \<open>Lemmas about the file system\<close>

lemma unrelated_Cons: "unrelated (x # xs) (y # ys) = (x \<noteq> y \<or> unrelated xs ys)"
  by (auto simp: unrelated_def)

lemma unrelated_Nil [simp]: "\<not> unrelated [] q" "\<not> unrelated p []"
  by (auto simp: unrelated_def)

lemma unrelated_sym: "unrelated p q = unrelated q p"
  by (auto simp: unrelated_def)

lemma node_at_append:
  "node_at t (p @ q) = (case node_at t p of None \<Rightarrow> None | Some n \<Rightarrow> node_at n q)"
proof (induction p arbitrary: t)
  case Nil
  then show ?case by simp
next
  case (Cons x xs)
  then show ?case by (cases t) (auto split: option.splits)
qed

lemma node_at_put_unrelated:
  "unrelated p q \<Longrightarrow> node_at (put_node t p n) q = node_at t q"
proof (induction t p n arbitrary: q rule: put_node.induct)
  case (1 t n)
  then show ?case by simp
next
  case (2 c x xs n)
  then show ?case by simp
next
  case (3 es x n)
  then show ?case
    by (cases q) (auto simp: unrelated_Cons update_conv')
next
  case (4 es x y ys n)
  then show ?case
    by (cases q) (auto simp: unrelated_Cons update_conv' split: option.splits)
qed

lemma node_at_del_unrelated:
  "unrelated p q \<Longrightarrow> node_at (del_node t p) q = node_at t q"
proof (induction t p arbitrary: q rule: del_node.induct)
  case (1 t)
  then show ?case by simp
next
  case (2 c x xs)
  then show ?case by simp
next
  case (3 es x)
  then show ?case
    by (cases q) (auto simp: unrelated_Cons delete_conv')
next
  case (4 es x y ys)
  then show ?case
    by (cases q) (auto simp: unrelated_Cons update_conv' split: option.splits)
qed

lemma node_at_del_below:
  "p \<noteq> [] \<Longrightarrow> prefix p q \<Longrightarrow> node_at (del_node t p) q = None"
proof (induction t p arbitrary: q rule: del_node.induct)
  case (1 t)
  then show ?case by simp
next
  case (2 c x xs)
  then show ?case by (cases q) auto
next
  case (3 es x)
  then show ?case
    by (cases q) (auto simp: delete_conv')
next
  case (4 es x y ys)
  then show ?case
    by (cases q) (auto simp: update_conv' split: option.splits)
qed

lemma kind_at_del_above:
  "strict_prefix q p \<Longrightarrow> kind_at (del_node t p) q = kind_at t q"
proof (induction t p arbitrary: q rule: del_node.induct)
  case (1 t)
  then show ?case by simp
next
  case (2 c x xs)
  then show ?case by simp
next
  case (3 es x)
  then show ?case
    by (cases q) (auto simp: kind_at_def)
next
  case (4 es x y ys)
  then show ?case
    by (cases q) (auto simp: kind_at_def update_conv' split: option.splits)
qed

lemma kind_at_put_above:
  "strict_prefix q p \<Longrightarrow> kind_at (put_node t p n) q = kind_at t q"
proof (induction t p n arbitrary: q rule: put_node.induct)
  case (1 t n)
  then show ?case by simp
next
  case (2 c x xs n)
  then show ?case by simp
next
  case (3 es x n)
  then show ?case
    by (cases q) (auto simp: kind_at_def)
next
  case (4 es x y ys n)
  then show ?case
    by (cases q) (auto simp: kind_at_def update_conv' split: option.splits)
qed

lemma node_at_put_below:
  "p = [] \<or> kind_at t (butlast p) = Some KDir \<Longrightarrow>
   node_at (put_node t p n) (p @ q) = node_at n q"
proof (induction t p n arbitrary: q rule: put_node.induct)
  case (1 t n)
  then show ?case by simp
next
  case (2 c x xs n)
  then show ?case by (cases xs) (auto simp: kind_at_def)
next
  case (3 es x n)
  then show ?case
    by (auto simp: kind_at_def update_conv')
next
  case (4 es x y ys n)
  then show ?case
    by (auto simp: kind_at_def update_conv' split: option.splits)
qed

subsection \<open>\<^verbatim>\<open>os.makedirs\<close>\<close>

lemma kind_at_Nil: "kind_at t [] = Some (kind_of t)"
  by (simp add: kind_at_def)

lemma mkdirs_is_dir: "mkdirs t p = Inr t' \<Longrightarrow> \<exists>es. t' = Dir es"
  by (induction t p rule: mkdirs.induct) (auto split: sum.splits)

lemma node_at_empty_dir: "ys \<noteq> [] \<Longrightarrow> node_at (Dir []) ys = None"
  by (cases ys) auto

lemma mkdirs_outside:
  "mkdirs t p = Inr t' \<Longrightarrow> \<not> prefix q p \<Longrightarrow> node_at t' q = node_at t q"
proof (induction t p arbitrary: t' q rule: mkdirs.induct)
  case (1 es)
  then show ?case by simp
next
  case (2 c)
  then show ?case by simp
next
  case (3 c x xs)
  then show ?case by simp
next
  case (4 es x xs)
  let ?c0 = "case map_of es x of None \<Rightarrow> Dir [] | Some c \<Rightarrow> c"
  from "4.prems"(1) obtain c' where c': "mkdirs ?c0 xs = Inr c'"
    and t': "t' = Dir (AList.update x c' es)"
    by (auto split: sum.splits)
  from "4.prems"(2) obtain y ys where q: "q = y # ys" by (cases q) auto
  show ?case
  proof (cases "y = x")
    case False
    then show ?thesis by (simp add: q t' update_conv')
  next
    case True
    with "4.prems"(2) q have np: "\<not> prefix ys xs" by simp
    then have "ys \<noteq> []" by auto
    have "node_at c' ys = node_at ?c0 ys" using "4.IH"[OF c' np] .
    then show ?thesis using True \<open>ys \<noteq> []\<close>
      by (auto simp: q t' update_conv' node_at_empty_dir split: option.splits)
  qed
qed

lemma mkdirs_on_way:
  "mkdirs t p = Inr t' \<Longrightarrow> prefix q p \<Longrightarrow> kind_at t' q = Some KDir"
proof (induction t p arbitrary: t' q rule: mkdirs.induct)
  case (1 es)
  then show ?case by (auto simp: kind_at_def)
next
  case (2 c)
  then show ?case by simp
next
  case (3 c x xs)
  then show ?case by simp
next
  case (4 es x xs)
  let ?c0 = "case map_of es x of None \<Rightarrow> Dir [] | Some c \<Rightarrow> c"
  from "4.prems"(1) obtain c' where c': "mkdirs ?c0 xs = Inr c'"
    and t': "t' = Dir (AList.update x c' es)"
    by (auto split: sum.splits)
  show ?case
  proof (cases q)
    case Nil
    then show ?thesis by (simp add: t' kind_at_def)
  next
    case (Cons y ys)
    with "4.prems"(2) have "y = x" "prefix ys xs" by auto
    from "4.IH"[OF c' this(2)] show ?thesis
      by (simp add: Cons \<open>y = x\<close> t' kind_at_def update_conv')
  qed
qed

lemma mkdirs_no_file_on_way:
  "mkdirs t p = Inr t' \<Longrightarrow> prefix q p \<Longrightarrow> kind_at t q \<noteq> Some (KFile c)"
proof (induction t p arbitrary: t' q rule: mkdirs.induct)
  case (1 es)
  then show ?case by (auto simp: kind_at_def)
next
  case (2 c)
  then show ?case by simp
next
  case (3 c x xs)
  then show ?case by simp
next
  case (4 es x xs)
  let ?c0 = "case map_of es x of None \<Rightarrow> Dir [] | Some c \<Rightarrow> c"
  from "4.prems"(1) obtain c' where c': "mkdirs ?c0 xs = Inr c'"
    by (auto split: sum.splits)
  show ?case
  proof (cases q)
    case Nil
    then show ?thesis by (simp add: kind_at_def)
  next
    case (Cons y ys)
    with "4.prems"(2) have "y = x" "prefix ys xs" by auto
    from "4.IH"[OF c' this(2)] show ?thesis
      by (auto simp: Cons \<open>y = x\<close> kind_at_def split: option.splits)
  qed
qed

lemma mkdirs_fails:
  "mkdirs t p = Inl e \<Longrightarrow> \<exists>q c. prefix q p \<and> kind_at t q = Some (KFile c)"
proof (induction t p arbitrary: e rule: mkdirs.induct)
  case (1 es)
  then show ?case by simp
next
  case (2 c)
  then show ?case by (auto simp: kind_at_def)
next
  case (3 c x xs)
  have "prefix [] (x # xs)" by simp
  moreover have "kind_at (File c) [] = Some (KFile c)" by (simp add: kind_at_def)
  ultimately show ?case by blast
next
  case (4 es x xs)
  let ?c0 = "case map_of es x of None \<Rightarrow> Dir [] | Some c \<Rightarrow> c"
  from "4.prems" obtain e' where "mkdirs ?c0 xs = Inl e'"
    by (auto split: sum.splits)
  from "4.IH"[OF this] obtain q c where q: "prefix q xs" "kind_at ?c0 q = Some (KFile c)"
    by blast
  have "map_of es x \<noteq> None"
  proof
    assume "map_of es x = None"
    with q(2) show False by (cases q) (auto simp: kind_at_def)
  qed
  then obtain c0 where c0: "map_of es x = Some c0" by auto
  with q have "prefix (x # q) (x # xs)" "kind_at (Dir es) (x # q) = Some (KFile c)"
    by (auto simp: kind_at_def)
  then show ?case by blast
qed

lemma mkdirs_blocked:
  "prefix q p \<Longrightarrow> kind_at t q = Some (KFile c) \<Longrightarrow> \<exists>e. mkdirs t p = Inl e"
  using mkdirs_no_file_on_way[of t p _ q c] by (cases "mkdirs t p") auto

lemma mkdirs_existing:
  "kind_at t p = Some KDir \<Longrightarrow> mkdirs t p = Inr t"
proof (induction t p rule: mkdirs.induct)
  case (1 es)
  then show ?case by simp
next
  case (2 c)
  then show ?case by (simp add: kind_at_def)
next
  case (3 c x xs)
  then show ?case by (simp add: kind_at_def)
next
  case (4 es x xs)
  then show ?case
    by (auto simp: kind_at_def update_triv split: option.splits)
qed

lemma mkdirs_kind:
  "mkdirs t p = Inr t' \<Longrightarrow> kind_at t' q = (if prefix q p then Some KDir else kind_at t q)"
proof (cases "prefix q p")
  case True
  assume "mkdirs t p = Inr t'"
  with True show ?thesis by (simp add: mkdirs_on_way)
next
  case False
  assume "mkdirs t p = Inr t'"
  with False show ?thesis by (simp add: mkdirs_outside kind_at_def)
qed

subsection \<open>\<^verbatim>\<open>os.path\<close> tests and \<^verbatim>\<open>os.rename\<close>\<close>

lemma exists_kind: "os_path_exists fs p = (p \<noteq> [] \<and> kind_at fs p \<noteq> None)"
  by (simp add: os_path_exists_def kind_at_def)

lemma isdir_kind: "os_path_isdir fs p = (p \<noteq> [] \<and> kind_at fs p = Some KDir)"
  by (auto simp: os_path_isdir_def kind_at_def split: option.splits node.splits)

lemma isfile_kind: "os_path_isfile fs p = (p \<noteq> [] \<and> (\<exists>c. kind_at fs p = Some (KFile c)))"
  by (auto simp: os_path_isfile_def kind_at_def split: option.splits node.splits)

lemma node_at_above:
  assumes "node_at t p = Some n" "strict_prefix q p"
  shows "\<exists>e es. node_at t q = Some (Dir (e # es))"
proof -
  from assms(2) obtain x xs where p: "p = q @ x # xs"
    by (metis strict_prefixE' )
  with assms(1) obtain m where m: "node_at t q = Some m" "node_at m (x # xs) = Some n"
    by (auto simp: node_at_append split: option.splits)
  from m(2) obtain es where "m = Dir es" "map_of es x \<noteq> None"
    by (cases m) (auto split: option.splits)
  then obtain e es' where "m = Dir (e # es')" by (cases es) auto
  with m(1) show ?thesis by blast
qed

lemma kind_at_above:
  "node_at t p = Some n \<Longrightarrow> prefix q p \<Longrightarrow> q \<noteq> p \<Longrightarrow> kind_at t q = Some KDir"
  using node_at_above[of t p n q] by (auto simp: kind_at_def strict_prefix_def)

lemma os_rename_form:
  assumes "os_rename fs s d = Inr fs'" "s \<noteq> d"
  shows "\<exists>n. node_at fs s = Some n \<and> fs' = put_node (del_node fs s) d n \<and> s \<noteq> [] \<and> d \<noteq> []
           \<and> kind_at fs (butlast d) = Some KDir \<and> unrelated s d"
proof -
  from assms obtain n where n: "node_at fs s = Some n" and ne: "s \<noteq> []" "d \<noteq> []"
    and par: "butlast d = [] \<or> os_path_isdir fs (butlast d)" and nsd: "\<not> prefix s d"
    by (auto simp: os_rename_def split: option.splits if_splits)
  from assms n ne par nsd have fs': "fs' = put_node (del_node fs s) d n"
    by (auto simp: os_rename_def split: option.splits if_splits node.splits list.splits)
  have nds: "\<not> prefix d s"
  proof
    assume "prefix d s"
    with assms(2) have "strict_prefix d s" by (auto simp: strict_prefix_def)
    from node_at_above[OF n this] obtain e es where "node_at fs d = Some (Dir (e # es))" by blast
    with assms n ne par nsd show False
      by (auto simp: os_rename_def split: option.splits if_splits node.splits list.splits)
  qed
  have "kind_at fs (butlast d) = Some KDir"
  proof (cases "butlast d = []")
    case True
    from n ne(1) obtain es where "fs = Dir es" by (cases fs; cases s) auto
    with True show ?thesis by (simp add: kind_at_def)
  next
    case False
    with par show ?thesis by (simp add: isdir_kind)
  qed
  with n fs' ne nsd nds show ?thesis by (auto simp: unrelated_def)
qed

lemma prefix_butlast: "prefix p (butlast d) \<Longrightarrow> prefix p d"
  by (metis prefix_order.trans prefixeq_butlast)

lemma os_rename_parent_kept:
  assumes "unrelated s d" "kind_at fs (butlast d) = Some KDir"
  shows "kind_at (del_node fs s) (butlast d) = Some KDir"
proof (cases "unrelated s (butlast d)")
  case True
  then show ?thesis using assms(2) by (simp add: kind_at_def node_at_del_unrelated)
next
  case False
  moreover from assms(1) have "\<not> prefix s (butlast d)"
    using prefix_butlast by (auto simp: unrelated_def)
  ultimately have "prefix (butlast d) s" by (auto simp: unrelated_def)
  moreover have "butlast d \<noteq> s"
    using \<open>\<not> prefix s (butlast d)\<close> by auto
  ultimately show ?thesis using assms(2) by (simp add: kind_at_del_above strict_prefix_def)
qed

lemma os_rename_target:
  assumes "os_rename fs s d = Inr fs'" "s \<noteq> d"
  shows "node_at fs' (d @ q) = (case node_at fs s of None \<Rightarrow> None | Some n \<Rightarrow> node_at n q)"
proof -
  from os_rename_form[OF assms] obtain n where n: "node_at fs s = Some n"
    "fs' = put_node (del_node fs s) d n" "kind_at fs (butlast d) = Some KDir" "unrelated s d"
    by blast
  from os_rename_parent_kept[OF n(4) n(3)] show ?thesis
    by (simp add: n(1,2) node_at_put_below)
qed

lemma os_rename_source:
  assumes "os_rename fs s d = Inr fs'" "s \<noteq> d" "prefix s q"
  shows "node_at fs' q = None"
proof -
  from os_rename_form[OF assms(1,2)] obtain n where n: "node_at fs s = Some n"
    "fs' = put_node (del_node fs s) d n" "s \<noteq> []" "unrelated s d"
    by blast
  have "unrelated d q"
    using n(4) assms(3) unfolding unrelated_def
    by (meson prefix_order.trans prefix_same_cases)
  then show ?thesis using n(3) assms(3)
    by (simp add: n(2) node_at_put_unrelated node_at_del_below)
qed

lemma os_rename_elsewhere:
  assumes "os_rename fs s d = Inr fs'" "unrelated s q" "unrelated d q"
  shows "node_at fs' q = node_at fs q"
proof (cases "s = d")
  case True
  with assms(1) show ?thesis by (auto simp: os_rename_def split: option.splits if_splits)
next
  case False
  from os_rename_form[OF assms(1) False] obtain n where
    "fs' = put_node (del_node fs s) d n" by blast
  then show ?thesis using assms(2,3)
    by (simp add: node_at_put_unrelated node_at_del_unrelated)
qed

lemma os_rename_kind:
  assumes "os_rename fs s d = Inr fs'" "\<not> prefix s q" "\<not> prefix d q"
  shows "kind_at fs' q = kind_at fs q"
proof (cases "s = d")
  case True
  with assms(1) show ?thesis by (auto simp: os_rename_def split: option.splits if_splits)
next
  case False
  from os_rename_form[OF assms(1) False] obtain n where
    fs': "fs' = put_node (del_node fs s) d n" by blast
  have 1: "kind_at fs' q = kind_at (del_node fs s) q"
  proof (cases "prefix q d")
    case True
    with assms(3) have "strict_prefix q d" by (auto simp: strict_prefix_def)
    then show ?thesis by (simp add: fs' kind_at_put_above)
  next
    case False
    with assms(3) have "unrelated d q" by (simp add: unrelated_def)
    then show ?thesis by (simp add: fs' kind_at_def node_at_put_unrelated)
  qed
  have 2: "kind_at (del_node fs s) q = kind_at fs q"
  proof (cases "prefix q s")
    case True
    with assms(2) have "strict_prefix q s" by (auto simp: strict_prefix_def)
    then show ?thesis by (simp add: kind_at_del_above)
  next
    case False
    with assms(2) have "unrelated s q" by (simp add: unrelated_def)
    then show ?thesis by (simp add: kind_at_def node_at_del_unrelated)
  qed
  from 1 2 show ?thesis by simp
qed

subsection \<open>\<^verbatim>\<open>shutil.move\<close>\<close>

lemma unrelated_below: "unrelated d q \<Longrightarrow> unrelated (d @ r) q"
  unfolding unrelated_def
  by (metis append_prefixD prefix_append prefix_order.eq_iff prefix_same_cases prefixI)

lemma not_prefix_below: "\<not> prefix d q \<Longrightarrow> \<not> prefix (d @ r) q"
  using append_prefixD by blast

lemma shutil_move_elsewhere:
  assumes "shutil_move fs s d = Inr fs'" "unrelated s q" "unrelated d q"
  shows "node_at fs' q = node_at fs q"
  using assms os_rename_elsewhere[of fs s _ fs' q] unrelated_below[of d q]
  by (auto simp: shutil_move_def os_path_join_def split: if_splits)

lemma shutil_move_kind:
  assumes "shutil_move fs s d = Inr fs'" "\<not> prefix s q" "\<not> prefix d q"
  shows "kind_at fs' q = kind_at fs q"
  using assms os_rename_kind[of fs s _ fs' q] not_prefix_below[of d q]
  by (auto simp: shutil_move_def os_path_join_def split: if_splits)

lemma shutil_move_source:
  assumes "shutil_move fs s d = Inr fs'" "s \<noteq> d" "s \<noteq> d @ [last s]" "prefix s q"
  shows "node_at fs' q = None"
  using assms os_rename_source[of fs s _ fs' q]
  by (auto simp: shutil_move_def os_path_join_def split: if_splits)

lemma shutil_move_target:
  assumes "shutil_move fs s d = Inr fs'" "s \<noteq> d" "\<not> os_path_isdir fs d"
  shows "node_at fs' (d @ q) = (case node_at fs s of None \<Rightarrow> None | Some n \<Rightarrow> node_at n q)"
  using assms os_rename_target[of fs s d fs' q]
  by (auto simp: shutil_move_def)

lemma shutil_move_needs_source:
  "shutil_move fs s d = Inr fs' \<Longrightarrow> s \<noteq> d \<Longrightarrow> node_at fs s \<noteq> None"
  by (auto simp: shutil_move_def os_rename_def split: if_splits option.splits)

subsection \<open>copytree and rmtree\<close>

lemma mkdirs_Nil: "mkdirs fs [] = Inr fs' \<Longrightarrow> fs' = fs"
  by (cases fs) auto

lemma shutil_copytree_form:
  assumes "shutil_copytree fs a [b] = Inr fs'"
  shows "\<exists>es. node_at fs a = Some (Dir es) \<and> fs' = put_node fs [b] (Dir es) \<and> a \<noteq> []
          \<and> kind_at fs [b] = None \<and> kind_at fs [] = Some KDir"
proof -
  from assms obtain es where es: "node_at fs a = Some (Dir es)" and a: "a \<noteq> []"
    and nb: "\<not> os_path_exists fs [b]"
    by (auto simp: shutil_copytree_def split: option.splits node.splits if_splits)
  with assms obtain fs1 where fs1: "mkdirs fs [] = Inr fs1" "fs' = put_node fs1 [b] (Dir es)"
    by (auto simp: shutil_copytree_def split: sum.splits)
  from fs1(1) have "fs1 = fs" by (rule mkdirs_Nil)
  moreover from fs1(1) have "kind_at fs [] = Some KDir" by (cases fs) (auto simp: kind_at_def)
  ultimately show ?thesis using es a nb fs1(2) by (auto simp: exists_kind)
qed

lemma shutil_copytree_succeeds:
  assumes "node_at fs a = Some (Dir es)" "a \<noteq> []" "kind_at fs [b] = None" "kind_at fs [] = Some KDir"
  shows "shutil_copytree fs a [b] = Inr (put_node fs [b] (Dir es))"
proof -
  from assms(4) obtain es0 where "fs = Dir es0" by (cases fs) (auto simp: kind_at_def)
  with assms show ?thesis by (simp add: shutil_copytree_def exists_kind)
qed

lemma put_del_fresh:
  assumes "kind_at fs [b] = None" "kind_at fs [] = Some KDir"
  shows "del_node (put_node fs [b] n) [b] = fs"
proof -
  from assms(2) obtain es where fs: "fs = Dir es" by (cases fs) (auto simp: kind_at_def)
  with assms(1) have "map_of es b = None" by (auto simp: kind_at_def split: option.splits)
  then have "b \<notin> fst ` set es" by (simp add: map_of_eq_None_iff)
  then show ?thesis by (simp add: fs delete_update_same)
qed

lemma shutil_rmtree_form:
  "shutil_rmtree fs p = Inr fs' \<Longrightarrow> fs' = del_node fs p \<and> os_path_isdir fs p"
  by (auto simp: shutil_rmtree_def split: if_splits)

subsection \<open>Shapes of paths\<close>

lemma file_not_prefix_of_dir:
  assumes "file_path q" "dir_path p"
  shows "\<not> prefix q p"
proof
  assume "prefix q p"
  then have "set q \<subseteq> set p" by (auto simp: prefix_def)
  moreover from assms(1) have "last q \<in> set q" "dotted (last q)" by (auto simp: file_path_def)
  ultimately show False using assms(2) by (auto simp: dir_path_def list_all_iff)
qed

lemma dir_path_butlast: "file_path p \<Longrightarrow> dir_path (butlast p)"
  by (simp add: file_path_def)

lemma dir_path_prefix: "dir_path p \<Longrightarrow> prefix q p \<Longrightarrow> dir_path q"
  by (auto simp: dir_path_def list_all_iff prefix_def)

lemma file_paths_unrelated:
  assumes "file_path p" "file_path q" "p \<noteq> q"
  shows "unrelated p q"
proof -
  have *: "\<not> prefix a b" if "file_path a" "file_path b" "a \<noteq> b" for a b
  proof
    assume "prefix a b"
    with that(3) have "strict_prefix a b" by (simp add: strict_prefix_def)
    then obtain z zs where "b = a @ z # zs" by (rule strict_prefixE')
    then have "butlast b = a @ butlast (z # zs)" by (simp add: butlast_append)
    then have "prefix a (butlast b)" by simp
    with file_not_prefix_of_dir[OF that(1) dir_path_butlast[OF that(2)]] show False by simp
  qed
  from *[OF assms] *[OF assms(2,1)] assms(3) show ?thesis by (auto simp: unrelated_def)
qed

lemma unrelated_hd:
  "p \<noteq> [] \<Longrightarrow> q \<noteq> [] \<Longrightarrow> hd p \<noteq> hd q \<Longrightarrow> unrelated p q"
  by (cases p; cases q) (auto simp: unrelated_Cons)

lemma unrelated_take:
  assumes "n \<le> length p" "n \<le> length q" "take n p \<noteq> take n q"
  shows "unrelated p q"
proof -
  have "\<not> prefix a b" if "n \<le> length a" "take n a \<noteq> take n b" for a b :: path
  proof
    assume "prefix a b"
    then obtain r where "b = a @ r" by (auto simp: prefix_def)
    with that show False by simp
  qed
  from this[OF assms(1,3)] this[OF assms(2)] assms(3) show ?thesis
    by (auto simp: unrelated_def)
qed

subsection \<open>Plain files of a directory\<close>

lemma file_names_node:
  "file_names t q =
     (case node_at t q of
        Some (Dir es) \<Rightarrow>
          filter (\<lambda>x. case map_of es x of Some (File c) \<Rightarrow> True | _ \<Rightarrow> False) (map fst es)
      | _ \<Rightarrow> [])"
proof (cases "node_at t q")
  case None
  then show ?thesis by (simp add: file_names_def os_listdir_def)
next
  case (Some n)
  show ?thesis
  proof (cases n)
    case (File c)
    with Some show ?thesis by (simp add: file_names_def os_listdir_def)
  next
    case (Dir es)
    have "os_path_isfile t (q @ [x]) = (case map_of es x of Some (File c) \<Rightarrow> True | _ \<Rightarrow> False)" for x
      using Some Dir by (auto simp: os_path_isfile_def node_at_append split: option.splits node.splits)
    with Some Dir show ?thesis by (simp add: file_names_def os_listdir_def)
  qed
qed

lemma file_names_cong: "node_at t' q = node_at t q \<Longrightarrow> file_names t' q = file_names t q"
  by (simp add: file_names_node)

lemma file_names_Cons:
  "file_names (Dir es) (x # ys) = (case map_of es x of None \<Rightarrow> [] | Some c \<Rightarrow> file_names c ys)"
  by (simp add: file_names_node split: option.splits)

lemma file_names_empty_dir: "file_names (Dir []) ys = []"
  by (cases ys) (simp_all add: file_names_node)

lemma filter_update_dir:
  assumes "\<And>c. map_of es x \<noteq> Some (File c)"
  shows "filter (\<lambda>y. case map_of (AList.update x (Dir ds) es) y of Some (File c) \<Rightarrow> True | _ \<Rightarrow> False)
           (map fst (AList.update x (Dir ds) es))
       = filter (\<lambda>y. case map_of es y of Some (File c) \<Rightarrow> True | _ \<Rightarrow> False) (map fst es)"
proof -
  have 1: "(case map_of (AList.update x (Dir ds) es) y of Some (File c) \<Rightarrow> True | _ \<Rightarrow> False)
         = (case map_of es y of Some (File c) \<Rightarrow> True | _ \<Rightarrow> False)" for y
    using assms by (cases "y = x") (auto simp: update_conv' split: option.splits node.splits)
  have 2: "\<not> (case map_of es x of Some (File c) \<Rightarrow> True | _ \<Rightarrow> False)"
    using assms by (auto split: option.splits node.splits)
  show ?thesis
    unfolding 1 using 2 by (simp add: update_keys)
qed

lemma mkdirs_file_names:
  "mkdirs t p = Inr t' \<Longrightarrow> file_names t' q = file_names t q"
proof (induction t p arbitrary: t' q rule: mkdirs.induct)
  case (1 es)
  then show ?case by simp
next
  case (2 c)
  then show ?case by simp
next
  case (3 c x xs)
  then show ?case by simp
next
  case (4 es x xs)
  let ?c0 = "case map_of es x of None \<Rightarrow> Dir [] | Some c \<Rightarrow> c"
  from "4.prems"(1) obtain c' where c': "mkdirs ?c0 xs = Inr c'"
    and t': "t' = Dir (AList.update x c' es)"
    by (auto split: sum.splits)
  from mkdirs_is_dir[OF c'] obtain ds where ds: "c' = Dir ds" by blast
  have nf: "map_of es x \<noteq> Some (File c)" for c
  proof
    assume "map_of es x = Some (File c)"
    with c' show False by (cases xs) auto
  qed
  show ?case
  proof (cases q)
    case Nil
    show ?thesis
      unfolding Nil t' ds file_names_node
      using filter_update_dir[of es x ds] nf by simp
  next
    case (Cons y ys)
    show ?thesis
    proof (cases "y = x")
      case False
      then show ?thesis by (simp add: Cons t' file_names_Cons update_conv')
    next
      case True
      have "file_names c' ys = file_names ?c0 ys" by (rule "4.IH"[OF c'])
      then show ?thesis
        by (simp add: Cons True t' file_names_Cons update_conv' file_names_empty_dir
            split: option.splits)
    qed
  qed
qed

subsection \<open>Strings\<close>

lemma str_in_iff: "str_in a s \<longleftrightarrow> (\<exists>p q. s = p @ a @ q)"
proof (induction s)
  case Nil
  then show ?case by auto
next
  case (Cons c cs)
  show ?case
  proof
    assume "str_in a (c # cs)"
    then consider "prefix a (c # cs)" | "str_in a cs" by auto
    then show "\<exists>p q. c # cs = p @ a @ q"
    proof cases
      case 1
      then obtain q where "c # cs = a @ q" by (auto simp: prefix_def)
      then have "c # cs = [] @ a @ q" by simp
      then show ?thesis by blast
    next
      case 2
      with Cons obtain p q where "cs = p @ a @ q" by auto
      then have "c # cs = (c # p) @ a @ q" by simp
      then show ?thesis by blast
    qed
  next
    assume "\<exists>p q. c # cs = p @ a @ q"
    then obtain p q where pq: "c # cs = p @ a @ q" by auto
    show "str_in a (c # cs)"
    proof (cases p)
      case Nil
      with pq have "prefix a (c # cs)" by (metis append_Nil prefixI)
      then show ?thesis by simp
    next
      case (Cons c' p')
      with pq have "cs = p' @ a @ q" by simp
      with Cons.IH have "str_in a cs" by blast
      then show ?thesis by simp
    qed
  qed
qed

lemma str_in_vpr_effects: "str_in ''vpr-effects'' s \<Longrightarrow> str_in ''effects'' s"
proof -
  assume "str_in ''vpr-effects'' s"
  then obtain p q where "s = p @ ''vpr-effects'' @ q" by (auto simp: str_in_iff)
  then have "s = (p @ ''vpr-'') @ ''effects'' @ q" by simp
  then show ?thesis unfolding str_in_iff by blast
qed

subsection \<open>The configuration tables\<close>

lemma FILE_MOVES_shape:
  "list_all (\<lambda>(s, d). file_path s \<and> file_path d \<and> hd s = ''src'' \<and> hd d = ''src''
      \<and> take 2 s \<noteq> styles_root \<and> take 2 d \<noteq> styles_root
      \<and> 3 \<le> length s \<and> 3 \<le> length d) FILE_MOVES"
  by (simp add: FILE_MOVES_def file_path_def dir_path_def dotted_def styles_root_def)

lemma NEW_DIRS_shape:
  "list_all (\<lambda>p. dir_path p \<and> hd p = ''src'' \<and> 2 \<le> length p) NEW_DIRS"
  by (simp add: NEW_DIRS_def dir_path_def dotted_def)

lemma FILE_MOVES_distinct:
  "distinct (map fst FILE_MOVES @ map snd (filter (\<lambda>(s, d). s \<noteq> d) FILE_MOVES))"
  by (simp add: FILE_MOVES_def)

section \<open>Lemmas about the script\<close>

lemma css_category_cases:
  "css_category lower item = ''effects'' \<or> css_category lower item = ''ui''
     \<or> css_category lower item = ''components''"
  by (simp add: css_category_def Let_def)

lemma css_moves_clash:
  "css_moves ascii_lower fs_clash =
     [([''src'', ''styles'', ''panel.css''], [''src'', ''styles'', ''components'', ''panel.css''])]"
  by (simp add: css_moves_def os_listdir_def styles_root_def is_css_def os_path_isfile_def
      css_category_def os_path_join_def ascii_lower_def lower_char_def str_endswith_def
      fs_clash_def)

subsection \<open>The tracker and the file mover\<close>

lemma logging_simps [simp]:
  "root (logging lv m w) = root w"
  "fuse (logging lv m w) = fuse w"
  "clock (logging lv m w) = clock w"
  "free_space (logging lv m w) = free_space w"
  "logs (logging lv m w) = logs w @ [(lv, m)]"
  "str_lower (logging lv m w) = str_lower w"
  by (simp_all add: logging_def)

lemma add_error_simps [simp]:
  "snd (add_error m st) = logging ERROR m (snd st)"
  "errors (fst (add_error m st)) = errors (fst st) @ [m]"
  "warnings (fst (add_error m st)) = warnings (fst st)"
  "total_operations (fst (add_error m st)) = total_operations (fst st)"
  "completed_operations (fst (add_error m st)) = completed_operations (fst st)"
  by (simp_all add: add_error_def)

lemma add_warning_simps [simp]:
  "snd (add_warning m st) = logging WARNING m (snd st)"
  "errors (fst (add_warning m st)) = errors (fst st)"
  "warnings (fst (add_warning m st)) = warnings (fst st) @ [m]"
  "total_operations (fst (add_warning m st)) = total_operations (fst st)"
  "completed_operations (fst (add_warning m st)) = completed_operations (fst st)"
  by (simp_all add: add_warning_def)

lemma increment_simps [simp]:
  "snd (increment st) = snd st"
  "errors (fst (increment st)) = errors (fst st)"
  "warnings (fst (increment st)) = warnings (fst st)"
  "total_operations (fst (increment st)) = total_operations (fst st)"
  "completed_operations (fst (increment st)) = completed_operations (fst st) + 1"
  by (simp_all add: increment_def)

lemma set_total_simps [simp]:
  "snd (set_total n st) = snd st"
  "errors (fst (set_total n st)) = errors (fst st)"
  "warnings (fst (set_total n st)) = warnings (fst st)"
  "total_operations (fst (set_total n st)) = n"
  "completed_operations (fst (set_total n st)) = completed_operations (fst st)"
  by (simp_all add: set_total_def)

text \<open>What one call of the file mover does to the tree.\<close>

lemma move_file_cases:
  obtains
    (missing) "\<not> os_path_exists (root (snd st)) src"
      "move_file src dst dry st = add_warning (''Source file not found (skipped): '' @ path_str src) st"
  | (dry) "os_path_exists (root (snd st)) src" "dry"
      "root (snd (move_file src dst dry st)) = root (snd st)"
      "errors (fst (move_file src dst dry st)) = errors (fst st)"
      "warnings (fst (move_file src dst dry st)) = warnings (fst st)"
      "completed_operations (fst (move_file src dst dry st)) = completed_operations (fst st) + 1"
  | (nodir) e where "os_path_exists (root (snd st)) src" "\<not> dry"
      "\<not> os_path_isdir (root (snd st)) (butlast dst)"
      "os_makedirs (root (snd st)) (butlast dst) = Inl e"
      "root (snd (move_file src dst dry st)) = root (snd st)"
      "errors (fst (move_file src dst dry st)) \<noteq> errors (fst st)"
  | (failed) fs1 e where "os_path_exists (root (snd st)) src" "\<not> dry"
      "fs1 = root (snd st) \<and> os_path_isdir fs1 (butlast dst)
         \<or> os_makedirs (root (snd st)) (butlast dst) = Inr fs1"
      "shutil_move fs1 src dst = Inl e"
      "root (snd (move_file src dst dry st)) = fs1"
      "errors (fst (move_file src dst dry st)) \<noteq> errors (fst st)"
  | (moved) fs1 fs2 where "os_path_exists (root (snd st)) src" "\<not> dry"
      "fs1 = root (snd st) \<and> os_path_isdir fs1 (butlast dst)
         \<or> os_makedirs (root (snd st)) (butlast dst) = Inr fs1"
      "shutil_move fs1 src dst = Inr fs2"
      "root (snd (move_file src dst dry st)) = fs2"
      "errors (fst (move_file src dst dry st)) = errors (fst st)"
      "warnings (fst (move_file src dst dry st)) = warnings (fst st)"
      "completed_operations (fst (move_file src dst dry st)) = completed_operations (fst st) + 1"
proof (cases "os_path_exists (root (snd st)) src")
  case False
  then show ?thesis using missing by (simp add: move_file_def)
next
  case ex: True
  show ?thesis
  proof (cases dry)
    case True
    with ex show ?thesis
      by (intro dry) (simp_all add: move_file_def Let_def os_path_dirname_def)
  next
    case nd: False
    show ?thesis
    proof (cases "os_path_isdir (root (snd st)) (butlast dst)")
      case True
      show ?thesis
      proof (cases "shutil_move (root (snd st)) src dst")
        case (Inl e)
        with ex nd True show ?thesis
          by (intro failed[of "root (snd st)" e])
            (simp_all add: move_file_def Let_def os_path_dirname_def)
      next
        case (Inr fs2)
        with ex nd True show ?thesis
          by (intro moved[of "root (snd st)" fs2])
            (simp_all add: move_file_def Let_def os_path_dirname_def)
      qed
    next
      case nodirc: False
      show ?thesis
      proof (cases "os_makedirs (root (snd st)) (butlast dst)")
        case (Inl e)
        with ex nd nodirc show ?thesis
          by (intro nodir[of e]) (simp_all add: move_file_def Let_def os_path_dirname_def)
      next
        case mk: (Inr fs1)
        show ?thesis
        proof (cases "shutil_move fs1 src dst")
          case (Inl e)
          with ex nd nodirc mk show ?thesis
            by (intro failed[of fs1 e])
              (simp_all add: move_file_def Let_def os_path_dirname_def)
        next
          case (Inr fs2)
          with ex nd nodirc mk show ?thesis
            by (intro moved[of fs1 fs2])
              (simp_all add: move_file_def Let_def os_path_dirname_def)
        qed
      qed
    qed
  qed
qed

lemma move_file_frame [simp]:
  "fuse (snd (move_file src dst dry st)) = fuse (snd st)"
  "clock (snd (move_file src dst dry st)) = clock (snd st)"
  "free_space (snd (move_file src dst dry st)) = free_space (snd st)"
  "str_lower (snd (move_file src dst dry st)) = str_lower (snd st)"
  "total_operations (fst (move_file src dst dry st)) = total_operations (fst st)"
  by (auto simp: move_file_def Let_def add_error_def add_warning_def increment_def
      split: sum.splits)

lemma move_file_dry_root [simp]:
  "root (snd (move_file src dst True st)) = root (snd st)"
  by (auto simp: move_file_def Let_def add_error_def add_warning_def increment_def
      split: sum.splits)

lemma made_outside:
  assumes "fs1 = fs \<and> os_path_isdir fs1 p \<or> os_makedirs fs p = Inr fs1" "\<not> prefix q p"
  shows "node_at fs1 q = node_at fs q"
  using assms mkdirs_outside[of fs p fs1 q]
  by (auto simp: os_makedirs_def split: if_splits)

lemma made_kind:
  assumes "fs1 = fs \<and> os_path_isdir fs1 p \<or> os_makedirs fs p = Inr fs1" "kind_at fs q \<noteq> None"
  shows "kind_at fs1 q = kind_at fs q"
proof (cases "fs1 = fs")
  case True
  then show ?thesis by simp
next
  case False
  with assms(1) have mk: "mkdirs fs p = Inr fs1" by (auto simp: os_makedirs_def split: if_splits)
  show ?thesis
  proof (cases "prefix q p")
    case True
    from mkdirs_no_file_on_way[OF mk True] assms(2) have "kind_at fs q = Some KDir"
      by (cases "kind_at fs q") (auto, metis kind.exhaust)
    with mkdirs_on_way[OF mk True] show ?thesis by simp
  next
    case False
    with mkdirs_outside[OF mk False] show ?thesis by (simp add: kind_at_def)
  qed
qed

lemma made_absent:
  assumes "fs1 = fs \<and> os_path_isdir fs1 p \<or> os_makedirs fs p = Inr fs1" "\<not> prefix q p"
  shows "kind_at fs1 q = kind_at fs q"
  using made_outside[OF assms] by (simp add: kind_at_def)

lemma move_file_elsewhere:
  assumes "unrelated s q" "unrelated d q"
  shows "node_at (root (snd (move_file s d dry st))) q = node_at (root (snd st)) q"
proof -
  from assms(2) have nq: "\<not> prefix q (butlast d)"
    using prefix_butlast by (auto simp: unrelated_def)
  show ?thesis
  proof (cases rule: move_file_cases[of st s d dry])
    case missing
    then show ?thesis by simp
  next
    case dry
    then show ?thesis by simp
  next
    case (nodir e)
    then show ?thesis by simp
  next
    case (failed fs1 e)
    with made_outside[OF failed(3) nq] show ?thesis by simp
  next
    case (moved fs1 fs2)
    with made_outside[OF moved(3) nq] shutil_move_elsewhere[OF moved(4) assms] show ?thesis
      by simp
  qed
qed

lemma move_file_kind:
  assumes "\<not> prefix s q" "\<not> prefix d q"
    "kind_at (root (snd st)) q \<noteq> None \<or> \<not> prefix q (butlast d)"
  shows "kind_at (root (snd (move_file s d dry st))) q = kind_at (root (snd st)) q"
proof -
  have mk: "kind_at fs1 q = kind_at (root (snd st)) q"
    if "fs1 = root (snd st) \<and> os_path_isdir fs1 (butlast d)
         \<or> os_makedirs (root (snd st)) (butlast d) = Inr fs1" for fs1
  proof -
    note * = that
    from assms(3) show ?thesis using made_kind[OF *] made_absent[OF *] by blast
  qed
  show ?thesis
  proof (cases rule: move_file_cases[of st s d dry])
    case missing
    then show ?thesis by simp
  next
    case dry
    then show ?thesis by simp
  next
    case (nodir e)
    then show ?thesis by simp
  next
    case (failed fs1 e)
    with mk[OF failed(3)] show ?thesis by simp
  next
    case (moved fs1 fs2)
    with mk[OF moved(3)] shutil_move_kind[OF moved(4) assms(1,2)] show ?thesis
      by simp
  qed
qed

lemma move_file_result:
  assumes "os_path_exists (root (snd st)) s" "\<not> os_path_exists (root (snd st)) d"
  shows "os_path_exists (root (snd (move_file s d False st))) s
           \<noteq> os_path_exists (root (snd (move_file s d False st))) d"
proof -
  from assms have sd: "s \<noteq> d" "s \<noteq> []" by (auto simp: exists_kind)
  have keep: "os_path_exists fs1 s \<and> \<not> os_path_exists fs1 d"
    if "fs1 = root (snd st) \<and> os_path_isdir fs1 (butlast d)
         \<or> os_makedirs (root (snd st)) (butlast d) = Inr fs1" for fs1
  proof -
    note * = that
    have "d = [] \<or> \<not> prefix d (butlast d)"
      by (metis append_butlast_last_id append_self_conv not_Cons_self2 prefix_order.antisym prefixeq_butlast)
    with assms made_kind[OF *, of s] made_absent[OF *, of d] show ?thesis
      by (auto simp: exists_kind)
  qed
  show ?thesis
  proof (cases rule: move_file_cases[of st s d False])
    case missing
    with assms show ?thesis by simp
  next
    case dry
    then show ?thesis by simp
  next
    case (nodir e)
    with assms show ?thesis by simp
  next
    case (failed fs1 e)
    with keep[OF failed(3)] show ?thesis by simp
  next
    case (moved fs1 fs2)
    from keep[OF moved(3)] have k: "os_path_exists fs1 s" "\<not> os_path_exists fs1 d" by auto
    then have nd: "\<not> os_path_isdir fs1 d" by (auto simp: exists_kind isdir_kind)
    from k have "d = [] \<or> kind_at fs1 d = None" by (auto simp: exists_kind)
    from moved(4) nd have rn: "os_rename fs1 s d = Inr fs2" by (simp add: shutil_move_def)
    from os_rename_form[OF rn sd(1)] have "d \<noteq> []" by blast
    from os_rename_source[OF rn sd(1), of s] have "\<not> os_path_exists fs2 s"
      by (simp add: exists_kind kind_at_def)
    moreover from os_rename_target[OF rn sd(1), of "[]"] k(1) have "os_path_exists fs2 d"
      using \<open>d \<noteq> []\<close> by (auto simp: exists_kind kind_at_def split: option.splits)
    ultimately show ?thesis using moved(5) by simp
  qed
qed

lemma move_file_gone:
  assumes "errors (fst (move_file s d False st)) = errors (fst st)" "s \<noteq> d" "s \<noteq> d @ [last s]"
  shows "\<not> os_path_exists (root (snd (move_file s d False st))) s"
proof (cases rule: move_file_cases[of st s d False])
  case missing
  then show ?thesis by simp
next
  case dry
  then show ?thesis by simp
next
  case (nodir e)
  with assms show ?thesis by simp
next
  case (failed fs1 e)
  with assms show ?thesis by simp
next
  case (moved fs1 fs2)
  from shutil_move_source[OF moved(4) assms(2,3), of s] moved(5) show ?thesis
    by (simp add: exists_kind kind_at_def)
qed

subsection \<open>The loops\<close>

lemma inject_frame:
  "root (snd (inject w)) = root w"
  "clock (snd (inject w)) = clock w"
  "free_space (snd (inject w)) = free_space w"
  "logs (snd (inject w)) = logs w"
  "str_lower (snd (inject w)) = str_lower w"
  by (auto simp: inject_def split: option.splits nat.splits)

lemma inject_None [simp]: "fuse w = None \<Longrightarrow> inject w = (None, w)"
  by (simp add: inject_def)

lemma inject_cases:
  obtains (pass) f where "inject w = (None, w\<lparr>fuse := f\<rparr>)"
  | (fire) "fuse w = Some 0" "inject w = (Some InjectedFailure, w\<lparr>fuse := None\<rparr>)"
proof (cases "fuse w")
  case None
  then have "inject w = (None, w\<lparr>fuse := None\<rparr>)" by (simp add: inject_def)
  then show ?thesis by (rule pass)
next
  case (Some n)
  show ?thesis
  proof (cases n)
    case 0
    with Some show ?thesis by (intro fire) (simp_all add: inject_def)
  next
    case (Suc k)
    with Some have "inject w = (None, w\<lparr>fuse := Some k\<rparr>)" by (simp add: inject_def)
    then show ?thesis by (rule pass)
  qed
qed

lemma move_each_invariant:
  assumes "P st"
    and "\<And>s d st. (s, d) \<in> set ms \<Longrightarrow> P st \<Longrightarrow> P (move_file s d dry st)"
    and "\<And>pr w f. P (pr, w) \<Longrightarrow> P (pr, w\<lparr>fuse := f\<rparr>)"
  shows "P (snd (move_each ms dry st))"
  using assms(1,2)
proof (induction ms arbitrary: st)
  case Nil
  then show ?case by simp
next
  case (Cons m ms)
  obtain s d where m: "m = (s, d)" by (cases m)
  obtain pr w where st: "st = (pr, w)" by (cases st)
  show ?case
  proof (cases rule: inject_cases[of w])
    case (pass f)
    have "P (pr, w\<lparr>fuse := f\<rparr>)" using Cons.prems(1) assms(3) st by simp
    then have "P (move_file s d dry (pr, w\<lparr>fuse := f\<rparr>))"
      using Cons.prems(2) m by simp
    then have "P (snd (move_each ms dry (move_file s d dry (pr, w\<lparr>fuse := f\<rparr>))))"
      using Cons.IH Cons.prems(2) by simp
    then show ?thesis using pass by (simp add: m st)
  next
    case fire
    have "P (pr, w\<lparr>fuse := None\<rparr>)" using Cons.prems(1) assms(3) st by simp
    then show ?thesis using fire by (simp add: m st)
  qed
qed

lemma move_each_no_fuse:
  "fuse (snd st) = None \<Longrightarrow>
   fst (move_each ms dry st) = None \<and> fuse (snd (snd (move_each ms dry st))) = None"
proof (induction ms arbitrary: st)
  case Nil
  then show ?case by simp
next
  case (Cons m ms)
  obtain s d where m: "m = (s, d)" by (cases m)
  from Cons.prems have "fuse (snd (move_file s d dry st)) = None" by simp
  from Cons.IH[OF this] Cons.prems show ?case by (simp add: m)
qed

lemma move_each_total [simp]:
  "total_operations (fst (snd (move_each ms dry st))) = total_operations (fst st)"
  by (rule move_each_invariant[where P = "\<lambda>x. total_operations (fst x) = total_operations (fst st)"])
    simp_all

lemma move_each_clock [simp]:
  "clock (snd (snd (move_each ms dry st))) = clock (snd st)"
  by (rule move_each_invariant[where P = "\<lambda>x. clock (snd x) = clock (snd st)"]) simp_all

lemma move_each_dry_root [simp]:
  "root (snd (snd (move_each ms True st))) = root (snd st)"
  by (rule move_each_invariant[where P = "\<lambda>x. root (snd x) = root (snd st)"]) simp_all

lemma move_each_errors_grow:
  "prefix (errors (fst st)) (errors (fst (snd (move_each ms dry st))))"
proof (rule move_each_invariant[where P = "\<lambda>x. prefix (errors (fst st)) (errors (fst x))"])
  show "prefix (errors (fst st)) (errors (fst st))" by simp
next
  fix s d and st' :: state
  assume "prefix (errors (fst st)) (errors (fst st'))"
  moreover have "prefix (errors (fst st')) (errors (fst (move_file s d dry st')))"
    by (auto simp: move_file_def Let_def add_error_def add_warning_def increment_def
        split: sum.splits)
  ultimately show "prefix (errors (fst st)) (errors (fst (move_file s d dry st')))"
    by (rule prefix_order.trans)
qed simp


subsection \<open>The phases that only log, and the directory skeleton\<close>

lemma create_dirs_frame_all:
  "fuse (create_dirs ds dry w) = fuse w \<and> clock (create_dirs ds dry w) = clock w \<and>
   free_space (create_dirs ds dry w) = free_space w"
proof (induction ds arbitrary: w)
  case Nil
  then show ?case by simp
next
  case (Cons p ds)
  show ?case unfolding create_dirs.simps
    by (simp only: Cons.IH) (simp split: sum.splits)
qed

lemma create_dirs_frame [simp]:
  "fuse (create_dirs ds dry w) = fuse w"
  "clock (create_dirs ds dry w) = clock w"
  "free_space (create_dirs ds dry w) = free_space w"
  using create_dirs_frame_all[of ds dry w] by simp_all

lemma create_dirs_dry_root [simp]: "root (create_dirs ds True w) = root w"
proof (induction ds arbitrary: w)
  case Nil
  then show ?case by simp
next
  case (Cons p ds)
  show ?case unfolding create_dirs.simps
    by (simp only: Cons.IH) simp
qed

lemma create_dirs_invariant:
  assumes "P (root w)"
    and "\<And>p fs fs'. p \<in> set ds \<Longrightarrow> P fs \<Longrightarrow> mkdirs fs p = Inr fs' \<Longrightarrow> P fs'"
  shows "P (root (create_dirs ds dry w))"
  using assms
proof (induction ds arbitrary: w)
  case Nil
  then show ?case by simp
next
  case (Cons p ds)
  let ?w1 = "(if os_path_isdir (root w) p then
          logging INFO (''Directory already exists: '' @ path_str p) w
        else if dry then
          logging INFO (''[DRY RUN] Would create directory: '' @ path_str p) w
        else
          (case os_makedirs (root w) p of
             Inr fs \<Rightarrow>
               logging INFO (''Created directory: '' @ path_str p) (w\<lparr>root := fs\<rparr>)
           | Inl e \<Rightarrow>
               logging ERROR
                 (''Error creating directory '' @ path_str p @ '': '' @ exn_str e) w))"
  have "P (root ?w1)"
    using Cons.prems(1) Cons.prems(2)[of p "root w"]
    by (auto simp: os_makedirs_def split: sum.splits if_splits)
  then have "P (root (create_dirs ds dry ?w1))"
    using Cons.prems(2) by (intro Cons.IH) auto
  then show ?case by simp
qed

lemma create_new_directories_frame [simp]:
  "fuse (create_new_directories dry w) = fuse w"
  "clock (create_new_directories dry w) = clock w"
  "free_space (create_new_directories dry w) = free_space w"
  "root (create_new_directories True w) = root w"
  by (simp_all add: create_new_directories_def)

lemma warn_extra_frame_all:
  "root (warn_extra fs w) = root w \<and> fuse (warn_extra fs w) = fuse w \<and>
   clock (warn_extra fs w) = clock w \<and> free_space (warn_extra fs w) = free_space w \<and>
   str_lower (warn_extra fs w) = str_lower w"
proof (induction fs arbitrary: w)
  case Nil
  then show ?case by simp
next
  case (Cons p fs)
  show ?case unfolding warn_extra.simps
    by (simp only: Cons.IH) simp
qed

lemma warn_extra_frame [simp]:
  "root (warn_extra fs w) = root w"
  "fuse (warn_extra fs w) = fuse w"
  "clock (warn_extra fs w) = clock w"
  "free_space (warn_extra fs w) = free_space w"
  "str_lower (warn_extra fs w) = str_lower w"
  using warn_extra_frame_all[of fs w] by simp_all

lemma check_extra_files_frame [simp]:
  "root (check_extra_files w) = root w"
  "fuse (check_extra_files w) = fuse w"
  "clock (check_extra_files w) = clock w"
  "free_space (check_extra_files w) = free_space w"
  "str_lower (check_extra_files w) = str_lower w"
  by (simp_all add: check_extra_files_def)

lemma log_each_frame_all:
  "root (log_each lv ms w) = root w \<and> fuse (log_each lv ms w) = fuse w \<and>
   clock (log_each lv ms w) = clock w \<and> free_space (log_each lv ms w) = free_space w \<and>
   str_lower (log_each lv ms w) = str_lower w"
  by (induction ms arbitrary: w) simp_all

lemma log_each_frame [simp]:
  "root (log_each lv ms w) = root w"
  "fuse (log_each lv ms w) = fuse w"
  "clock (log_each lv ms w) = clock w"
  "free_space (log_each lv ms w) = free_space w"
  "str_lower (log_each lv ms w) = str_lower w"
  using log_each_frame_all[of lv ms w] by simp_all

lemma validate_each_frame:
  "root (snd (validate_each ms vw)) = root (snd vw) \<and>
   fuse (snd (validate_each ms vw)) = fuse (snd vw) \<and>
   clock (snd (validate_each ms vw)) = clock (snd vw) \<and>
   free_space (snd (validate_each ms vw)) = free_space (snd vw) \<and>
   str_lower (snd (validate_each ms vw)) = str_lower (snd vw)"
proof (induction ms arbitrary: vw)
  case Nil
  then show ?case by simp
next
  case (Cons m ms)
  obtain s d where m: "m = (s, d)" by (cases m)
  let ?step = "(let v = fst vw; w = snd vw; fs = root w in
        if os_path_exists fs d \<and> \<not> os_path_exists fs s then
          (v\<lparr>already_moved := already_moved v @ [(s, d)]\<rparr>, w)
        else if \<not> os_path_exists fs s \<and> \<not> os_path_exists fs d then
          (v\<lparr>missing_sources := missing_sources v @ [s]\<rparr>, w)
        else
          let vw1 =
                (if os_path_exists fs s \<and> os_path_exists fs d then
                   (v\<lparr>issues_found := True\<rparr>,
                    logging ERROR (''Both source and destination exist: '' @ path_str s
                      @ '' -> '' @ path_str d) w)
                 else (v, w))
          in
          case parent_clash fs (os_path_dirname d) of
            Some parent \<Rightarrow>
              ((fst vw1)\<lparr>issues_found := True\<rparr>,
               logging ERROR (''Parent path is a file: '' @ path_str parent) (snd vw1))
          | None \<Rightarrow> vw1)"
  have step: "root (snd ?step) = root (snd vw) \<and> fuse (snd ?step) = fuse (snd vw) \<and>
      clock (snd ?step) = clock (snd vw) \<and> free_space (snd ?step) = free_space (snd vw) \<and>
      str_lower (snd ?step) = str_lower (snd vw)"
    by (simp add: Let_def split: option.splits)
  have "validate_each (m # ms) vw = validate_each ms ?step" by (simp add: m)
  with Cons.IH[of ?step] step show ?case by simp
qed

lemma validate_file_moves_frame [simp]:
  "root (snd (validate_file_moves w)) = root w"
  "fuse (snd (validate_file_moves w)) = fuse w"
  "clock (snd (validate_file_moves w)) = clock w"
  "free_space (snd (validate_file_moves w)) = free_space w"
  "str_lower (snd (validate_file_moves w)) = str_lower w"
proof -
  obtain v w1 where vw: "validate_each FILE_MOVES
      (\<lparr>issues_found = False, already_moved = [], missing_sources = []\<rparr>, w) = (v, w1)"
    by (cases "validate_each FILE_MOVES
      (\<lparr>issues_found = False, already_moved = [], missing_sources = []\<rparr>, w)")
  from validate_each_frame[of FILE_MOVES
      "(\<lparr>issues_found = False, already_moved = [], missing_sources = []\<rparr>, w)"]
  have w1: "root w1 = root w" "fuse w1 = fuse w" "clock w1 = clock w"
    "free_space w1 = free_space w" "str_lower w1 = str_lower w"
    by (simp_all add: vw)
  show "root (snd (validate_file_moves w)) = root w"
    "fuse (snd (validate_file_moves w)) = fuse w"
    "clock (snd (validate_file_moves w)) = clock w"
    "free_space (snd (validate_file_moves w)) = free_space w"
    "str_lower (snd (validate_file_moves w)) = str_lower w"
    by (simp_all add: validate_file_moves_def vw Let_def w1)
qed

lemma validate_environment_frame [simp]:
  "root (snd (validate_environment w)) = root w"
  "fuse (snd (validate_environment w)) = fuse w"
  "clock (snd (validate_environment w)) = clock w"
  "free_space (snd (validate_environment w)) = free_space w"
  "str_lower (snd (validate_environment w)) = str_lower w"
  by (simp_all add: validate_environment_def)

lemma validate_environment_True:
  "fst (validate_environment w) \<longleftrightarrow>
     os_path_isdir (root w) [''src''] \<and> os_path_isdir (root w) [''src'', ''components'']
     \<and> os_path_isdir (root w) [''src'', ''components'', ''factions'']"
  by (simp add: validate_environment_def)

lemma validate_environment_snd: "fst (validate_environment w) \<Longrightarrow> snd (validate_environment w) = w"
  by (simp add: validate_environment_def split: if_splits)

lemma check_disk_space_frame [simp]:
  "root (snd (check_disk_space b w)) = root w"
  "fuse (snd (check_disk_space b w)) = fuse w"
  "clock (snd (check_disk_space b w)) = clock w"
  "free_space (snd (check_disk_space b w)) = free_space w"
  "str_lower (snd (check_disk_space b w)) = str_lower w"
  by (simp_all add: check_disk_space_def Let_def split: sum.splits option.splits)

subsection \<open>Backup, restore and the phases of a run\<close>

lemma create_backup_dry [simp]: "create_backup True w = (None, w)"
  by (simp add: create_backup_def)

lemma create_backup_cases:
  obtains (failed) e where "shutil_copytree (root w) [''src''] (backup_name w) = Inl e"
      "fst (create_backup False w) = None" "root (snd (create_backup False w)) = root w"
  | (made) fs where "shutil_copytree (root w) [''src''] (backup_name w) = Inr fs"
      "fst (create_backup False w) = Some (backup_name w)"
      "root (snd (create_backup False w)) = fs"
  by (cases "shutil_copytree (root w) [''src''] (backup_name w)")
    (auto simp: create_backup_def Let_def)

lemma create_backup_frame [simp]:
  "fuse (snd (create_backup dry w)) = fuse w"
  "clock (snd (create_backup dry w)) = clock w"
  "free_space (snd (create_backup dry w)) = free_space w"
  "str_lower (snd (create_backup dry w)) = str_lower w"
  by (auto simp: create_backup_def Let_def split: sum.splits)

lemma backup_name_not_src: "backup_name w \<noteq> [''src'']" "hd (backup_name w) \<noteq> ''src''"
  by (simp_all add: backup_name_def)

lemma move_each_root_invariant:
  assumes "Q (root (snd st))"
    and "\<And>s d st'. (s, d) \<in> set ms \<Longrightarrow> Q (root (snd st'))
           \<Longrightarrow> Q (root (snd (move_file s d dry st')))"
  shows "Q (root (snd (snd (move_each ms dry st))))"
  by (rule move_each_invariant[where P = "\<lambda>x. Q (root (snd x))"]) (use assms in simp_all)

lemma process_file_moves_split:
  fixes st :: state and dry :: bool
  defines "r \<equiv> move_each (moves_needed (root (snd st))) dry
            (set_total (length (moves_needed (root (snd st))))
               (fst st, logging INFO ''Processing explicit file moves ...'' (snd st)))"
  shows "fst (process_file_moves dry st) = fst r"
    and "fst (snd (process_file_moves dry st)) = fst (snd r)"
    and "root (snd (snd (process_file_moves dry st))) = root (snd (snd r))"
    and "fuse (snd (snd (process_file_moves dry st))) = fuse (snd (snd r))"
    and "clock (snd (snd (process_file_moves dry st))) = clock (snd (snd r))"
    and "str_lower (snd (snd (process_file_moves dry st))) = str_lower (snd (snd r))"
    and "free_space (snd (snd (process_file_moves dry st))) = free_space (snd (snd r))"
    and "prefix (logs (snd (snd r))) (logs (snd (snd (process_file_moves dry st))))"
proof -
  obtain e pr w' where r: "r = (e, pr, w')" by (cases r) auto
  then have r': "move_each (moves_needed (root (snd st))) dry
            (set_total (length (moves_needed (root (snd st))))
               (fst st, logging INFO ''Processing explicit file moves ...'' (snd st)))
            = (e, pr, w')" by (simp add: r_def)
  show "fst (process_file_moves dry st) = fst r"
    by (cases e) (simp_all add: process_file_moves_def Let_def r r')
  show "fst (snd (process_file_moves dry st)) = fst (snd r)"
    by (cases e) (simp_all add: process_file_moves_def Let_def r r')
  show "root (snd (snd (process_file_moves dry st))) = root (snd (snd r))"
    by (cases e) (simp_all add: process_file_moves_def Let_def r r')
  show "fuse (snd (snd (process_file_moves dry st))) = fuse (snd (snd r))"
    by (cases e) (simp_all add: process_file_moves_def Let_def r r')
  show "clock (snd (snd (process_file_moves dry st))) = clock (snd (snd r))"
    by (cases e) (simp_all add: process_file_moves_def Let_def r r')
  show "str_lower (snd (snd (process_file_moves dry st))) = str_lower (snd (snd r))"
    by (cases e) (simp_all add: process_file_moves_def Let_def r r')
  show "free_space (snd (snd (process_file_moves dry st))) = free_space (snd (snd r))"
    by (cases e) (simp_all add: process_file_moves_def Let_def r r')
  show "prefix (logs (snd (snd r))) (logs (snd (snd (process_file_moves dry st))))"
    by (cases e) (simp_all add: process_file_moves_def Let_def r r')
qed

lemma process_file_moves_frame [simp]:
  "clock (snd (snd (process_file_moves dry st))) = clock (snd st)"
  "str_lower (snd (snd (process_file_moves dry st))) = str_lower (snd st)"
  "total_operations (fst (snd (process_file_moves dry st)))
     = length (moves_needed (root (snd st)))"
proof -
  let ?st0 = "set_total (length (moves_needed (root (snd st))))
               (fst st, logging INFO ''Processing explicit file moves ...'' (snd st))"
  let ?r = "move_each (moves_needed (root (snd st))) dry ?st0"
  have l: "str_lower (snd (snd ?r)) = str_lower (snd st)"
    by (rule move_each_invariant[where P = "\<lambda>x. str_lower (snd x) = str_lower (snd st)"])
      simp_all
  show "clock (snd (snd (process_file_moves dry st))) = clock (snd st)"
    by (simp add: process_file_moves_split(5))
  show "str_lower (snd (snd (process_file_moves dry st))) = str_lower (snd st)"
    by (simp add: process_file_moves_split(6) l)
  show "total_operations (fst (snd (process_file_moves dry st)))
     = length (moves_needed (root (snd st)))"
    by (simp add: process_file_moves_split(2))
qed

lemma process_file_moves_root_invariant:
  assumes "Q (root (snd st))"
    and "\<And>s d st'. (s, d) \<in> set (moves_needed (root (snd st))) \<Longrightarrow> Q (root (snd st'))
           \<Longrightarrow> Q (root (snd (move_file s d dry st')))"
  shows "Q (root (snd (snd (process_file_moves dry st))))"
proof -
  let ?r = "move_each (moves_needed (root (snd st))) dry
            (set_total (length (moves_needed (root (snd st))))
               (fst st, logging INFO ''Processing explicit file moves ...'' (snd st)))"
  have "Q (root (snd (snd ?r)))"
    by (rule move_each_root_invariant) (use assms in simp_all)
  then show ?thesis by (simp add: process_file_moves_split(3))
qed

lemma process_file_moves_no_fuse:
  "fuse (snd st) = None \<Longrightarrow> fst (process_file_moves dry st) = None
     \<and> fuse (snd (snd (process_file_moves dry st))) = None"
proof -
  assume f: "fuse (snd st) = None"
  let ?r = "move_each (moves_needed (root (snd st))) dry
            (set_total (length (moves_needed (root (snd st))))
               (fst st, logging INFO ''Processing explicit file moves ...'' (snd st)))"
  have "fst ?r = None \<and> fuse (snd (snd ?r)) = None"
    by (rule move_each_no_fuse) (simp add: f)
  then show ?thesis by (simp add: process_file_moves_split(1,4))
qed

lemma reorganize_styles_eq:
  "fst (reorganize_styles dry st) =
     (if os_path_isdir (root (snd st)) styles_root then
        fst (move_each (css_moves (str_lower (snd st)) (root (snd st))) dry
          (set_total (total_operations (fst st)
             + length (filter (is_css (str_lower (snd st)) (root (snd st)))
                 (os_listdir (root (snd st)) styles_root)))
             (fst st, logging INFO ''Reorganizing CSS files ...'' (snd st))))
      else None)"
  "snd (reorganize_styles dry st) =
     (if os_path_isdir (root (snd st)) styles_root then
        snd (move_each (css_moves (str_lower (snd st)) (root (snd st))) dry
          (set_total (total_operations (fst st)
             + length (filter (is_css (str_lower (snd st)) (root (snd st)))
                 (os_listdir (root (snd st)) styles_root)))
             (fst st, logging INFO ''Reorganizing CSS files ...'' (snd st))))
      else add_warning (''Styles folder not found: '' @ path_str styles_root)
             (fst st, logging INFO ''Reorganizing CSS files ...'' (snd st)))"
  by (simp_all add: reorganize_styles_def Let_def)

lemma listdir_not_dir: "\<not> os_path_isdir fs p \<Longrightarrow> p \<noteq> [] \<Longrightarrow> os_listdir fs p = []"
  by (auto simp: os_path_isdir_def os_listdir_def split: option.splits node.splits)

lemma reorganize_styles_root_invariant:
  assumes "Q (root (snd st))"
    and "\<And>s d st'. (s, d) \<in> set (css_moves (str_lower (snd st)) (root (snd st)))
           \<Longrightarrow> Q (root (snd st')) \<Longrightarrow> Q (root (snd (move_file s d dry st')))"
  shows "Q (root (snd (snd (reorganize_styles dry st))))"
proof (cases "os_path_isdir (root (snd st)) styles_root")
  case True
  let ?r = "move_each (css_moves (str_lower (snd st)) (root (snd st))) dry
          (set_total (total_operations (fst st)
             + length (filter (is_css (str_lower (snd st)) (root (snd st)))
                 (os_listdir (root (snd st)) styles_root)))
             (fst st, logging INFO ''Reorganizing CSS files ...'' (snd st)))"
  have "Q (root (snd (snd ?r)))"
    by (rule move_each_root_invariant) (use assms in simp_all)
  moreover from True have "snd (reorganize_styles dry st) = snd ?r"
    by (simp add: reorganize_styles_eq(2))
  ultimately show ?thesis by simp
next
  case False
  then show ?thesis unfolding reorganize_styles_eq(2) using assms(1) by simp
qed

lemma reorganize_styles_total:
  "total_operations (fst (snd (reorganize_styles dry st))) =
     total_operations (fst st)
       + length (filter (is_css (str_lower (snd st)) (root (snd st)))
           (os_listdir (root (snd st)) styles_root))"
proof (cases "os_path_isdir (root (snd st)) styles_root")
  case True
  then show ?thesis unfolding reorganize_styles_eq(2) by simp
next
  case False
  then have "os_listdir (root (snd st)) styles_root = []"
    by (intro listdir_not_dir) (simp_all add: styles_root_def)
  with False show ?thesis unfolding reorganize_styles_eq(2) by simp
qed

lemma reorganize_styles_no_fuse:
  "fuse (snd st) = None \<Longrightarrow> fst (reorganize_styles dry st) = None
     \<and> fuse (snd (snd (reorganize_styles dry st))) = None"
  unfolding reorganize_styles_eq
  using move_each_no_fuse[of "set_total (total_operations (fst st)
             + length (filter (is_css (str_lower (snd st)) (root (snd st)))
                 (os_listdir (root (snd st)) styles_root)))
             (fst st, logging INFO ''Reorganizing CSS files ...'' (snd st))"
          "css_moves (str_lower (snd st)) (root (snd st))" dry]
  by simp

lemma reorganize_styles_clock [simp]:
  "clock (snd (snd (reorganize_styles dry st))) = clock (snd st)"
  unfolding reorganize_styles_eq(2) by simp

subsection \<open>The structure of a run\<close>

lemma main_try_migrate:
  "main_try dry b (ProgressTracker_init, w) =
     (case migrate dry w of
        (Some e, st) \<Rightarrow> (Inl e, st)
      | (None, st2) \<Rightarrow>
          (let w3 = check_extra_files (snd st2);
               cleaned =
                 (if dry then Inr (logging INFO ''Dry run completed. No changes were made.'' w3)
                  else
                    let w4 = logging INFO ''Restructuring completed successfully!'' w3 in
                    case b of
                      None \<Rightarrow> Inr w4
                    | Some bd \<Rightarrow>
                        if os_path_exists (root w4) bd then
                          (case shutil_rmtree (root w4) bd of
                             Inl e \<Rightarrow> Inl (e, w4)
                           | Inr fs \<Rightarrow>
                               Inr (logging INFO (''Removed backup directory: '' @ path_str bd)
                                      (w4\<lparr>root := fs\<rparr>)))
                        else Inr w4)
           in
           case cleaned of
             Inl (e, w') \<Rightarrow> (Inl e, (fst st2, w'))
           | Inr w' \<Rightarrow> (generate_report (fst st2), (fst st2, w'))))"
  by (simp add: main_try_def migrate_def split: prod.splits option.splits)

lemma main_eq:
  "main dry w =
     (if \<not> fst (validate_environment w) then
        (Aborted, logging ERROR ''Environment validation failed. Aborting.''
                    (snd (validate_environment w)))
      else if \<not> fst (check_disk_space (\<not> dry) (snd (validate_file_moves w))) then
        (Aborted, logging ERROR ''Disk space check failed. Aborting.''
                    (snd (check_disk_space (\<not> dry) (snd (validate_file_moves w)))))
      else
        let bw = create_backup dry (snd (check_disk_space (\<not> dry) (snd (validate_file_moves w))))
        in
        if fst bw = None \<and> \<not> dry then
          (Aborted, logging ERROR ''Failed to create backup. Aborting.'' (snd bw))
        else
          (case main_try dry (fst bw) (ProgressTracker_init, snd bw) of
             (Inr r, st) \<Rightarrow> (Completed r, snd st)
           | (Inl e, st) \<Rightarrow> main_except dry (fst bw) e st))"
proof -
  obtain ok w1 where ve: "validate_environment w = (ok, w1)" by (cases "validate_environment w")
  have w1: "ok \<Longrightarrow> w1 = w" using validate_environment_snd[of w] ve by simp
  obtain ok2 w3 where cd: "check_disk_space (\<not> dry) (snd (validate_file_moves w)) = (ok2, w3)"
    by (cases "check_disk_space (\<not> dry) (snd (validate_file_moves w))")
  obtain b w4 where cb: "create_backup dry w3 = (b, w4)" by (cases "create_backup dry w3")
  show ?thesis
  proof (cases ok)
    case False
    then show ?thesis by (simp add: main_def ve)
  next
    case True
    with w1 have [simp]: "w1 = w" by simp
    show ?thesis
      by (cases ok2) (auto simp: main_def ve True cd cb Let_def split: prod.splits sum.splits)
  qed
qed

subsection \<open>Members of the tables\<close>

lemma FILE_MOVES_member:
  assumes "(s, d) \<in> set FILE_MOVES"
  shows "file_path s" "file_path d" "hd s = ''src''" "hd d = ''src''"
    "take 2 s \<noteq> styles_root" "take 2 d \<noteq> styles_root" "3 \<le> length s" "3 \<le> length d"
  using assms FILE_MOVES_shape by (auto simp: list_all_iff)

lemma NEW_DIRS_member:
  assumes "p \<in> set NEW_DIRS"
  shows "dir_path p" "hd p = ''src''" "2 \<le> length p"
  using assms NEW_DIRS_shape by (auto simp: list_all_iff)

text \<open>Two different entries of the mapping, one of which moves its file, have no
  path in common.\<close>

lemma FILE_MOVES_apart:
  assumes "(s, d) \<in> set FILE_MOVES" "(s', d') \<in> set FILE_MOVES" "(s, d) \<noteq> (s', d')" "s' \<noteq> d'"
  shows "s \<noteq> s'" "s \<noteq> d'" "d \<noteq> s'" "d \<noteq> d'"
proof -
  let ?NI = "filter (\<lambda>(s, d). s \<noteq> d) FILE_MOVES"
  from FILE_MOVES_distinct have ds: "distinct (map fst FILE_MOVES)"
    and dn: "distinct (map snd ?NI)"
    and dj: "set (map fst FILE_MOVES) \<inter> set (map snd ?NI) = {}"
    by auto
  from ds have inj: "inj_on fst (set FILE_MOVES)" by (simp add: distinct_map)
  from dn have injn: "inj_on snd (set ?NI)" by (simp add: distinct_map)
  from assms(2,4) have ni': "(s', d') \<in> set ?NI" by simp
  show "s \<noteq> s'"
  proof
    assume "s = s'"
    with inj_onD[OF inj, of "(s, d)" "(s', d')"] assms(1,2) have "(s, d) = (s', d')" by simp
    with assms(3) show False by simp
  qed
  then have sd: "s \<noteq> s'" .
  show "s \<noteq> d'"
  proof
    assume "s = d'"
    moreover from assms(1) have "s \<in> set (map fst FILE_MOVES)" by force
    moreover from ni' have "d' \<in> set (map snd ?NI)" by force
    ultimately show False using dj by blast
  qed
  show "d \<noteq> s'"
  proof
    assume e: "d = s'"
    show False
    proof (cases "s = d")
      case True
      with e sd show False by simp
    next
      case False
      with assms(1) have "(s, d) \<in> set ?NI" by simp
      then have "d \<in> set (map snd ?NI)" by force
      moreover from assms(2) have "s' \<in> set (map fst FILE_MOVES)" by force
      ultimately show False using dj e by blast
    qed
  qed
  show "d \<noteq> d'"
  proof
    assume e: "d = d'"
    show False
    proof (cases "s = d")
      case True
      with assms(1) have "d \<in> set (map fst FILE_MOVES)" by force
      moreover from ni' have "d' \<in> set (map snd ?NI)" by force
      ultimately show False using dj e by blast
    next
      case False
      with assms(1) have "(s, d) \<in> set ?NI" by simp
      with inj_onD[OF injn, of "(s, d)" "(s', d')"] ni' e have "(s, d) = (s', d')" by simp
      with assms(3) show False by simp
    qed
  qed
qed

lemma moves_needed_member:
  "(s, d) \<in> set (moves_needed fs) \<Longrightarrow>
     (s, d) \<in> set FILE_MOVES \<and> os_path_exists fs s \<and> \<not> os_path_exists fs d \<and> s \<noteq> d"
  by (auto simp: moves_needed_def)

lemma css_moves_member:
  "(s, d) \<in> set (css_moves lower fs) \<Longrightarrow>
     \<exists>f c. s = styles_root @ [f] \<and> d = styles_root @ [c, f] \<and> is_css lower fs f
       \<and> f \<in> set (os_listdir fs styles_root)"
  by (auto simp: css_moves_def os_path_join_def)

lemma css_path_src:
  "hd (styles_root @ r) = ''src''" "styles_root @ r \<noteq> []" "2 \<le> length (styles_root @ r)"
  "take 2 (styles_root @ r) = styles_root"
  by (simp_all add: styles_root_def)

subsection \<open>Invariants of the migration phase\<close>

lemma migrate_root_invariant:
  assumes "Q (root w)"
    and "\<And>p fs fs'. p \<in> set NEW_DIRS \<Longrightarrow> Q fs \<Longrightarrow> mkdirs fs p = Inr fs' \<Longrightarrow> Q fs'"
    and "\<And>s d st'. (s, d) \<in> set FILE_MOVES \<Longrightarrow> s \<noteq> d \<Longrightarrow> Q (root (snd st'))
           \<Longrightarrow> Q (root (snd (move_file s d dry st')))"
    and "\<And>f c st'. Q (root (snd st'))
           \<Longrightarrow> Q (root (snd (move_file (styles_root @ [f]) (styles_root @ [c, f]) dry st')))"
  shows "Q (root (snd (snd (migrate dry w))))"
proof -
  let ?A = "create_new_directories dry w"
  let ?P = "process_file_moves dry (ProgressTracker_init, ?A)"
  have A: "Q (root ?A)"
    unfolding create_new_directories_def
    by (rule create_dirs_invariant) (use assms(1,2) in simp_all)
  have P: "Q (root (snd (snd ?P)))"
  proof (rule process_file_moves_root_invariant)
    show "Q (root (snd (ProgressTracker_init, ?A)))" using A by simp
  next
    fix s d and st' :: state
    assume "(s, d) \<in> set (moves_needed (root (snd (ProgressTracker_init, ?A))))"
      and "Q (root (snd st'))"
    then show "Q (root (snd (move_file s d dry st')))"
      using assms(3) moves_needed_member by blast
  qed
  have R: "Q (root (snd (snd (reorganize_styles dry (snd ?P)))))"
  proof (rule reorganize_styles_root_invariant)
    show "Q (root (snd (snd ?P)))" by (rule P)
  next
    fix s d and st' :: state
    assume "(s, d) \<in> set (css_moves (str_lower (snd (snd ?P))) (root (snd (snd ?P))))"
      and q: "Q (root (snd st'))"
    then obtain f c where "s = styles_root @ [f]" "d = styles_root @ [c, f]"
      using css_moves_member by blast
    with assms(4)[OF q] show "Q (root (snd (move_file s d dry st')))" by simp
  qed
  obtain e st1 where p: "?P = (e, st1)" by (cases ?P)
  show ?thesis
    using P R by (cases e) (simp_all add: migrate_def p)
qed

subsection \<open>What the migration phase leaves alone\<close>

lemma migrate_outside_src:
  assumes "x \<noteq> ''src''"
  shows "node_at (root (snd (snd (migrate dry w)))) (x # xs) = node_at (root w) (x # xs)"
proof (rule migrate_root_invariant[where Q = "\<lambda>fs. node_at fs (x # xs) = node_at (root w) (x # xs)"])
  show "node_at (root w) (x # xs) = node_at (root w) (x # xs)" by simp
next
  fix p fs fs'
  assume p: "p \<in> set NEW_DIRS" and q: "node_at fs (x # xs) = node_at (root w) (x # xs)"
    and mk: "mkdirs fs p = Inr fs'"
  from NEW_DIRS_member[OF p] assms have "\<not> prefix (x # xs) p" by (cases p) auto
  from mkdirs_outside[OF mk this] q show "node_at fs' (x # xs) = node_at (root w) (x # xs)"
    by simp
next
  fix s d and st' :: state
  assume m: "(s, d) \<in> set FILE_MOVES" and q: "node_at (root (snd st')) (x # xs) = node_at (root w) (x # xs)"
  from FILE_MOVES_member[OF m] assms have "unrelated s (x # xs)" "unrelated d (x # xs)"
    by (auto intro!: unrelated_hd)
  from move_file_elsewhere[OF this] q
  show "node_at (root (snd (move_file s d dry st'))) (x # xs) = node_at (root w) (x # xs)"
    by simp
next
  fix f c and st' :: state
  assume q: "node_at (root (snd st')) (x # xs) = node_at (root w) (x # xs)"
  from assms have "unrelated (styles_root @ [f]) (x # xs)" "unrelated (styles_root @ [c, f]) (x # xs)"
    by (auto intro!: unrelated_hd simp: css_path_src)
  from move_file_elsewhere[OF this] q
  show "node_at (root (snd (move_file (styles_root @ [f]) (styles_root @ [c, f]) dry st')))
          (x # xs) = node_at (root w) (x # xs)"
    by simp
qed

lemma not_prefix_longer: "length q < length p \<Longrightarrow> \<not> prefix p q"
  by (auto simp: prefix_def)

lemma migrate_src_dir:
  assumes "os_path_isdir (root w) [''src'']"
  shows "os_path_isdir (root (snd (snd (migrate dry w)))) [''src'']"
proof -
  have "kind_at (root (snd (snd (migrate dry w)))) [''src''] = Some KDir"
  proof (rule migrate_root_invariant[where Q = "\<lambda>fs. kind_at fs [''src''] = Some KDir"])
    show "kind_at (root w) [''src''] = Some KDir" using assms by (simp add: isdir_kind)
  next
    fix p fs fs'
    assume "kind_at fs [''src''] = Some KDir" "mkdirs fs p = Inr fs'"
    then show "kind_at fs' [''src''] = Some KDir" by (simp add: mkdirs_kind)
  next
    fix s d and st' :: state
    assume m: "(s, d) \<in> set FILE_MOVES" and q: "kind_at (root (snd st')) [''src''] = Some KDir"
    from FILE_MOVES_member[OF m] have "\<not> prefix s [''src'']" "\<not> prefix d [''src'']"
      by (auto intro!: not_prefix_longer)
    from move_file_kind[OF this] q
    show "kind_at (root (snd (move_file s d dry st'))) [''src''] = Some KDir" by simp
  next
    fix f c and st' :: state
    assume q: "kind_at (root (snd st')) [''src''] = Some KDir"
    have "\<not> prefix (styles_root @ [f]) [''src'']" "\<not> prefix (styles_root @ [c, f]) [''src'']"
      by (auto intro!: not_prefix_longer simp: styles_root_def)
    from move_file_kind[OF this] q
    show "kind_at (root (snd (move_file (styles_root @ [f]) (styles_root @ [c, f]) dry st')))
            [''src''] = Some KDir" by simp
  qed
  then show ?thesis by (simp add: isdir_kind)
qed

lemma migrate_dry_root [simp]: "root (snd (snd (migrate True w))) = root w"
proof -
  let ?P = "process_file_moves True (ProgressTracker_init, create_new_directories True w)"
  have P: "root (snd (snd ?P)) = root w"
    by (simp add: process_file_moves_split(3))
  have R: "root (snd (snd (reorganize_styles True (snd ?P)))) = root w"
    using P by (simp add: reorganize_styles_eq(2))
  obtain e st1 where p: "?P = (e, st1)" by (cases ?P)
  show ?thesis using P R by (cases e) (simp_all add: migrate_def p)
qed

lemma migrate_clock [simp]: "clock (snd (snd (migrate dry w))) = clock w"
proof -
  obtain e st1 where p: "process_file_moves dry (ProgressTracker_init, create_new_directories dry w) = (e, st1)"
    by (cases "process_file_moves dry (ProgressTracker_init, create_new_directories dry w)")
  have "clock (snd st1) = clock w"
    using process_file_moves_frame(1)[of dry "(ProgressTracker_init, create_new_directories dry w)"]
    by (simp add: p)
  then show ?thesis by (cases e) (simp_all add: migrate_def p)
qed

subsection \<open>Restoring from the backup\<close>

lemma restore_from_backup_ok:
  assumes "node_at (root w) [b] = Some (Dir es)" "b \<noteq> ''src''"
    "os_path_isdir (root w) [''src'']"
  shows "fst (restore_from_backup [b] False w) \<and>
         node_at (root (snd (restore_from_backup [b] False w))) [''src''] = Some (Dir es) \<and>
         node_at (root (snd (restore_from_backup [b] False w))) [b] = Some (Dir es)"
proof -
  let ?fs = "root w"
  let ?fs1 = "del_node ?fs [''src'']"
  let ?fs2 = "put_node ?fs1 [''src''] (Dir es)"
  from assms(1) have ex: "os_path_exists ?fs [b]" by (simp add: os_path_exists_def)
  from assms(3) have rm: "shutil_rmtree ?fs [''src''] = Inr ?fs1" by (simp add: shutil_rmtree_def)
  have un: "unrelated [''src''] [b]" using assms(2) by (simp add: unrelated_Cons)
  have b1: "node_at ?fs1 [b] = Some (Dir es)"
    using assms(1) by (simp add: node_at_del_unrelated[OF un])
  have s1: "kind_at ?fs1 [''src''] = None"
    by (simp add: kind_at_def node_at_del_below)
  from assms(1) obtain es0 where "?fs = Dir es0" by (cases ?fs) auto
  then have r1: "kind_at ?fs1 [] = Some KDir" by (simp add: kind_at_def)
  from shutil_copytree_succeeds[OF b1 _ s1 r1]
  have cp: "shutil_copytree ?fs1 [b] [''src''] = Inr ?fs2" by simp
  have "node_at ?fs2 ([''src''] @ []) = node_at (Dir es) []"
    by (rule node_at_put_below) (use r1 in simp)
  then have s2: "node_at ?fs2 [''src''] = Some (Dir es)" by simp
  have b2: "node_at ?fs2 [b] = Some (Dir es)"
    using b1 by (simp add: node_at_put_unrelated[OF un])
  show ?thesis
    using ex rm cp s2 b2 by (simp add: restore_from_backup_def)
qed

lemma main_except_root:
  "root (snd (main_except False (Some b) e st)) =
     root (snd (restore_from_backup b False
       (logging INFO ''Attempting to restore from backup...''
          (snd (add_error (''An error occurred during restructuring: '' @ exn_str e) st)))))"
  by (simp add: main_except_def Let_def split: prod.splits bool.splits sum.splits)

lemma main_except_restores:
  assumes "node_at (root (snd st)) [b] = Some (Dir es)" "b \<noteq> ''src''"
    "os_path_isdir (root (snd st)) [''src'']"
  shows "node_at (root (snd (main_except False (Some [b]) e st))) [''src''] = Some (Dir es) \<and>
         node_at (root (snd (main_except False (Some [b]) e st))) [b] = Some (Dir es)"
proof -
  define w1 where "w1 = logging INFO ''Attempting to restore from backup...''
     (snd (add_error (''An error occurred during restructuring: '' @ exn_str e) st))"
  have "node_at (root w1) [b] = Some (Dir es)" "os_path_isdir (root w1) [''src'']"
    using assms by (simp_all add: w1_def)
  from restore_from_backup_ok[OF this(1) assms(2) this(2)]
  have "node_at (root (snd (restore_from_backup [b] False w1))) [''src''] = Some (Dir es) \<and>
        node_at (root (snd (restore_from_backup [b] False w1))) [b] = Some (Dir es)"
    by blast
  then show ?thesis unfolding main_except_root w1_def .
qed

subsection \<open>What the planned operations depend on\<close>

lemma unrelated_styles:
  "2 \<le> length p \<Longrightarrow> take 2 p \<noteq> styles_root \<Longrightarrow> unrelated p (styles_root @ r)"
  using unrelated_take[of 2 p "styles_root @ r"] by (simp add: styles_root_def)

lemma moves_needed_cong:
  assumes "\<And>s d. (s, d) \<in> set FILE_MOVES \<Longrightarrow>
     node_at fs' s = node_at fs s \<and> node_at fs' d = node_at fs d"
  shows "moves_needed fs' = moves_needed fs"
  unfolding moves_needed_def
proof (rule filter_cong)
  show "FILE_MOVES = FILE_MOVES" by simp
next
  fix x
  assume x: "x \<in> set FILE_MOVES"
  obtain s d where sd: "x = (s, d)" by (cases x)
  from assms[of s d] x sd
  show "(case x of (src, dst) \<Rightarrow> os_path_exists fs' src \<and> \<not> os_path_exists fs' dst)
      = (case x of (src, dst) \<Rightarrow> os_path_exists fs src \<and> \<not> os_path_exists fs dst)"
    by (simp add: os_path_exists_def)
qed

lemma css_files_names:
  "css_files lower fs = filter (\<lambda>f. str_endswith (lower f) ''.css'') (file_names fs styles_root)"
proof -
  have "is_css lower fs = (\<lambda>f. os_path_isfile fs (styles_root @ [f]) \<and> str_endswith (lower f) ''.css'')"
    by (simp add: is_css_def os_path_join_def fun_eq_iff)
  then show ?thesis
    by (simp add: css_files_def file_names_def conj_commute)
qed

lemma css_files_cong:
  "node_at fs' styles_root = node_at fs styles_root \<Longrightarrow> css_files lower fs' = css_files lower fs"
  using file_names_cong[of fs' styles_root fs] by (simp add: css_files_names)

lemma css_moves_cong:
  assumes "node_at fs' styles_root = node_at fs styles_root"
  shows "css_moves lower fs' = css_moves lower fs"
proof -
  have l: "os_listdir fs' styles_root = os_listdir fs styles_root"
    using assms by (simp add: os_listdir_def)
  have "os_path_isfile fs' (styles_root @ [x]) = os_path_isfile fs (styles_root @ [x])" for x
    using assms by (simp add: os_path_isfile_def node_at_append)
  then have "is_css lower fs' = is_css lower fs"
    by (auto simp: is_css_def os_path_join_def fun_eq_iff)
  with l show ?thesis by (simp add: css_moves_def)
qed

lemma create_new_directories_str_lower [simp]:
  "str_lower (create_new_directories dry w) = str_lower w"
proof -
  have "str_lower (create_dirs ds dry w') = str_lower w'" for ds w'
  proof (induction ds arbitrary: w')
    case Nil
    then show ?case by simp
  next
    case (Cons p ds)
    show ?case unfolding create_dirs.simps
      by (simp only: Cons.IH) (simp split: sum.splits)
  qed
  then show ?thesis by (simp add: create_new_directories_def)
qed

lemma create_new_directories_table:
  assumes "file_path p"
  shows "node_at (root (create_new_directories dry w)) p = node_at (root w) p"
  unfolding create_new_directories_def
proof (rule create_dirs_invariant[where P = "\<lambda>fs. node_at fs p = node_at (root w) p"])
  show "node_at (root (logging INFO ''Creating new directory structure ...'' w)) p
          = node_at (root w) p" by simp
next
  fix q fs fs'
  assume q: "q \<in> set NEW_DIRS" and a: "node_at fs p = node_at (root w) p"
    and mk: "mkdirs fs q = Inr fs'"
  from file_not_prefix_of_dir[OF assms NEW_DIRS_member(1)[OF q]] mkdirs_outside[OF mk] a
  show "node_at fs' p = node_at (root w) p" by simp
qed

lemma create_new_directories_file_names:
  "file_names (root (create_new_directories dry w)) q = file_names (root w) q"
  unfolding create_new_directories_def
proof (rule create_dirs_invariant[where P = "\<lambda>fs. file_names fs q = file_names (root w) q"])
  show "file_names (root (logging INFO ''Creating new directory structure ...'' w)) q
          = file_names (root w) q" by simp
next
  fix p fs fs'
  assume "file_names fs q = file_names (root w) q" "mkdirs fs p = Inr fs'"
  then show "file_names fs' q = file_names (root w) q" by (simp add: mkdirs_file_names)
qed

lemma moves_needed_after_dirs:
  "moves_needed (root (create_new_directories dry w)) = moves_needed (root w)"
proof (rule moves_needed_cong)
  fix s d
  assume "(s, d) \<in> set FILE_MOVES"
  from FILE_MOVES_member(1,2)[OF this]
  show "node_at (root (create_new_directories dry w)) s = node_at (root w) s \<and>
        node_at (root (create_new_directories dry w)) d = node_at (root w) d"
    by (simp add: create_new_directories_table)
qed

lemma process_file_moves_styles:
  "node_at (root (snd (snd (process_file_moves dry st)))) (styles_root @ r)
     = node_at (root (snd st)) (styles_root @ r)"
proof (rule process_file_moves_root_invariant[where
      Q = "\<lambda>fs. node_at fs (styles_root @ r) = node_at (root (snd st)) (styles_root @ r)"])
  show "node_at (root (snd st)) (styles_root @ r) = node_at (root (snd st)) (styles_root @ r)"
    by simp
next
  fix s d and st' :: state
  assume m: "(s, d) \<in> set (moves_needed (root (snd st)))"
    and a: "node_at (root (snd st')) (styles_root @ r) = node_at (root (snd st)) (styles_root @ r)"
  from m have fm: "(s, d) \<in> set FILE_MOVES" by (simp add: moves_needed_member)
  from FILE_MOVES_member[OF fm]
  have "unrelated s (styles_root @ r)" "unrelated d (styles_root @ r)"
    by (simp_all add: unrelated_styles)
  from move_file_elsewhere[OF this] a
  show "node_at (root (snd (move_file s d dry st'))) (styles_root @ r)
          = node_at (root (snd st)) (styles_root @ r)" by simp
qed

lemma migrate_total:
  assumes "fst (migrate dry w) = None"
  shows "total_operations (fst (snd (migrate dry w)))
           = length (moves_needed (root w)) + length (css_files (str_lower w) (root w))"
proof -
  let ?A = "create_new_directories dry w"
  let ?P = "process_file_moves dry (ProgressTracker_init, ?A)"
  obtain e st1 where p: "?P = (e, st1)" by (cases ?P)
  from assms have e: "e = None" by (cases e) (simp_all add: migrate_def p)
  then have m: "migrate dry w = reorganize_styles dry st1" by (simp add: migrate_def p)
  have t1: "total_operations (fst st1) = length (moves_needed (root w))"
    using process_file_moves_frame(3)[of dry "(ProgressTracker_init, ?A)"]
    by (simp add: p moves_needed_after_dirs)
  have l1: "str_lower (snd st1) = str_lower w"
    using process_file_moves_frame(2)[of dry "(ProgressTracker_init, ?A)"] by (simp add: p)
  have "node_at (root (snd st1)) styles_root = node_at (root ?A) styles_root"
    using process_file_moves_styles[of dry "(ProgressTracker_init, ?A)" "[]"] by (simp add: p)
  then have "css_files (str_lower w) (root (snd st1)) = css_files (str_lower w) (root ?A)"
    by (rule css_files_cong)
  also have "\<dots> = css_files (str_lower w) (root w)"
    by (simp add: css_files_names create_new_directories_file_names)
  finally have c1: "css_files (str_lower w) (root (snd st1)) = css_files (str_lower w) (root w)" .
  show ?thesis
    unfolding m reorganize_styles_total
    using t1 l1 c1 by (simp add: css_files_def)
qed

subsection \<open>Runs of \<^verbatim>\<open>main\<close>\<close>

lemma backup_name_form: "backup_name w = [''src_backup_'' @ clock w]"
  by (simp add: backup_name_def)

lemma main_start:
  assumes "fst (main dry w) \<noteq> Aborted"
  obtains b w4 where
    "main dry w = (case main_try dry b (ProgressTracker_init, w4) of
                     (Inr r, st) \<Rightarrow> (Completed r, snd st)
                   | (Inl e, st) \<Rightarrow> main_except dry b e st)"
    "clock w4 = clock w" "str_lower w4 = str_lower w" "fuse w4 = fuse w"
    "fst (validate_environment w)"
    "fst (check_disk_space (\<not> dry) (snd (validate_file_moves w)))"
    "dry \<Longrightarrow> b = None \<and> root w4 = root w"
    "\<not> dry \<Longrightarrow> \<exists>es. b = Some (backup_name w) \<and> node_at (root w) [''src''] = Some (Dir es)
        \<and> root w4 = put_node (root w) (backup_name w) (Dir es)
        \<and> kind_at (root w) (backup_name w) = None \<and> kind_at (root w) [] = Some KDir"
proof -
  let ?w3 = "snd (check_disk_space (\<not> dry) (snd (validate_file_moves w)))"
  let ?bw = "create_backup dry ?w3"
  from assms have ve: "fst (validate_environment w)"
    by (auto simp: main_eq split: if_splits)
  from assms ve have cd: "fst (check_disk_space (\<not> dry) (snd (validate_file_moves w)))"
    by (auto simp: main_eq split: if_splits)
  from assms ve cd have nb: "\<not> (fst ?bw = None \<and> \<not> dry)"
    by (auto simp: main_eq Let_def split: if_splits)
  from ve cd nb have m: "main dry w =
      (case main_try dry (fst ?bw) (ProgressTracker_init, snd ?bw) of
         (Inr r, st) \<Rightarrow> (Completed r, snd st)
       | (Inl e, st) \<Rightarrow> main_except dry (fst ?bw) e st)"
    by (simp only: main_eq Let_def if_False if_True simp_thms)
  have d: "dry \<Longrightarrow> fst ?bw = None \<and> root (snd ?bw) = root w" by simp
  have n: "\<exists>es. fst ?bw = Some (backup_name w) \<and> node_at (root w) [''src''] = Some (Dir es)
        \<and> root (snd ?bw) = put_node (root w) (backup_name w) (Dir es)
        \<and> kind_at (root w) (backup_name w) = None \<and> kind_at (root w) [] = Some KDir"
    if nd: "\<not> dry"
  proof (cases rule: create_backup_cases[of ?w3])
    case (failed e)
    with nb nd show ?thesis by simp
  next
    case (made fs)
    have bn: "backup_name ?w3 = backup_name w" by (simp add: backup_name_form)
    from made(1) have "shutil_copytree (root w) [''src''] [''src_backup_'' @ clock w] = Inr fs"
      by (simp add: backup_name_form)
    from shutil_copytree_form[OF this] made(2,3) nd show ?thesis
      by (auto simp: backup_name_form)
  qed
  show ?thesis
    by (rule that[of "fst ?bw" "snd ?bw"]) (use m ve cd d n in simp_all)
qed

lemma generate_report_Inr:
  "generate_report pr = Inr r \<Longrightarrow> r_total r = total_operations pr \<and> 0 < total_operations pr
     \<and> r_errors r = errors pr \<and> r_warnings r = warnings pr
     \<and> r_completed r = completed_operations pr"
  by (auto simp: generate_report_def split: if_splits)

lemma generate_report_Inl:
  "generate_report pr = Inl e \<Longrightarrow> total_operations pr = 0 \<and> e = ZeroDivisionError"
  by (auto simp: generate_report_def split: if_splits)

lemma main_try_Inr:
  assumes "main_try dry b (ProgressTracker_init, w) = (Inr r, st)"
  shows "fst (migrate dry w) = None" "generate_report (fst (snd (migrate dry w))) = Inr r"
    "fst st = fst (snd (migrate dry w))"
    "dry \<or> b = None \<Longrightarrow> root (snd st) = root (snd (snd (migrate dry w)))"
    "\<not> dry \<Longrightarrow> b = Some bd \<Longrightarrow> os_path_isdir (root (snd (snd (migrate dry w)))) bd
       \<Longrightarrow> root (snd st) = del_node (root (snd (snd (migrate dry w)))) bd"
proof -
  obtain e st2 where m: "migrate dry w = (e, st2)" by (cases "migrate dry w")
  from assms show 1: "fst (migrate dry w) = None"
    by (cases e) (simp_all add: main_try_migrate m)
  then have e: "e = None" by (simp add: m)
  from assms show "generate_report (fst (snd (migrate dry w))) = Inr r"
    by (auto simp: main_try_migrate m e Let_def split: if_splits option.splits sum.splits)
  from assms show "fst st = fst (snd (migrate dry w))"
    by (auto simp: main_try_migrate m e Let_def split: if_splits option.splits sum.splits)
  from assms show "dry \<or> b = None \<Longrightarrow> root (snd st) = root (snd (snd (migrate dry w)))"
    by (auto simp: main_try_migrate m e Let_def split: if_splits option.splits sum.splits)
  show "root (snd st) = del_node (root (snd (snd (migrate dry w)))) bd"
    if nd: "\<not> dry" and b: "b = Some bd"
      and isd: "os_path_isdir (root (snd (snd (migrate dry w)))) bd"
  proof -
    from nd m e have m': "migrate False w = (None, st2)" by simp
    from isd nd m' have i2: "os_path_isdir (root (snd st2)) bd" by simp
    then have ex: "os_path_exists (root (snd st2)) bd" by (auto simp: isdir_kind exists_kind)
    from i2 have rm: "shutil_rmtree (root (snd st2)) bd = Inr (del_node (root (snd st2)) bd)"
      by (simp add: shutil_rmtree_def)
    from assms nd b have "main_try False (Some bd) (ProgressTracker_init, w) = (Inr r, st)"
      by simp
    then show ?thesis
      using nd by (auto simp: main_try_migrate m' Let_def ex rm)
  qed
qed

lemma main_Completed:
  assumes "fst (main dry w) = Completed r"
  obtains b w4 st where
    "main_try dry b (ProgressTracker_init, w4) = (Inr r, st)"
    "snd (main dry w) = snd st"
    "clock w4 = clock w" "str_lower w4 = str_lower w" "fuse w4 = fuse w"
    "fst (validate_environment w)"
    "dry \<Longrightarrow> b = None \<and> root w4 = root w"
    "\<not> dry \<Longrightarrow> \<exists>es. b = Some (backup_name w) \<and> node_at (root w) [''src''] = Some (Dir es)
        \<and> root w4 = put_node (root w) (backup_name w) (Dir es)
        \<and> kind_at (root w) (backup_name w) = None \<and> kind_at (root w) [] = Some KDir"
proof -
  from assms have "fst (main dry w) \<noteq> Aborted" by simp
  then obtain b w4 where s:
    "main dry w = (case main_try dry b (ProgressTracker_init, w4) of
                     (Inr r, st) \<Rightarrow> (Completed r, snd st)
                   | (Inl e, st) \<Rightarrow> main_except dry b e st)"
    "clock w4 = clock w" "str_lower w4 = str_lower w" "fuse w4 = fuse w"
    "fst (validate_environment w)"
    "dry \<Longrightarrow> b = None \<and> root w4 = root w"
    "\<not> dry \<Longrightarrow> \<exists>es. b = Some (backup_name w) \<and> node_at (root w) [''src''] = Some (Dir es)
        \<and> root w4 = put_node (root w) (backup_name w) (Dir es)
        \<and> kind_at (root w) (backup_name w) = None \<and> kind_at (root w) [] = Some KDir"
    by (rule main_start) blast
  obtain x st where t: "main_try dry b (ProgressTracker_init, w4) = (x, st)"
    by (cases "main_try dry b (ProgressTracker_init, w4)")
  have ne: "fst (main_except dry b e st) \<noteq> Completed r" for e
    by (simp add: main_except_def Let_def split: sum.splits)
  from assms s(1) t ne have x: "x = Inr r"
    by (cases x) auto
  with s(1) t have "snd (main dry w) = snd st" by simp
  with t x s(2-) show ?thesis by (intro that[of b w4 st]) simp_all
qed

section \<open>The claims\<close>

text \<open>
  Claim C4. Every abort condition is to end the process with a non-zero exit status.
  Evaluated on a project root whose \<^verbatim>\<open>src\<close> has no \<^verbatim>\<open>components\<close> directory: the
  environment validation fails, \<^verbatim>\<open>main\<close> logs the abort and returns, and the process
  ends with exit status 0.
\<close>

theorem C4_abort_exits_zero:
  "os_path_isdir (root w_nocomp) [''src''] \<and>
   \<not> os_path_isdir (root w_nocomp) [''src'', ''components''] \<and>
   fst (main False w_nocomp) = Aborted \<and>
   fst (script False w_nocomp) = 0"
  by (simp add: script_def main_def validate_environment_def os_path_isdir_def w_nocomp_def)

text \<open>
  Claim C6. A stylesheet name that contains neither the effects keyword nor the ui
  keyword is to go to the components bucket. Evaluated on \<^verbatim>\<open>vpr-system.css\<close>, whose
  lower-case form contains neither \<^verbatim>\<open>effects\<close> nor \<^verbatim>\<open>ui\<close>: the re-bucketer
  classifies it as ui and plans its move to \<^verbatim>\<open>src/styles/ui\<close>. The three names of the
  claim go where it says.
\<close>

theorem C6_vpr_system_goes_to_ui:
  "\<not> str_in ''effects'' (ascii_lower ''vpr-system.css'') \<and>
   \<not> str_in ''ui'' (ascii_lower ''vpr-system.css'') \<and>
   css_category ascii_lower ''vpr-system.css'' = ''ui'' \<and>
   css_moves ascii_lower fs_vpr =
     [([''src'', ''styles'', ''vpr-system.css''],
       [''src'', ''styles'', ''ui'', ''vpr-system.css''])] \<and>
   css_category ascii_lower ''combat-effects.css'' = ''effects'' \<and>
   css_category ascii_lower ''main-ui-panel.css'' = ''ui'' \<and>
   css_category ascii_lower ''panel.css'' = ''components''"
  by (simp add: css_moves_def os_listdir_def styles_root_def is_css_def os_path_isfile_def
      css_category_def os_path_join_def ascii_lower_def lower_char_def str_endswith_def
      fs_vpr_def)

text \<open>
  Claim C9. The report generator is to produce the report for every run outcome, zero
  planned operations included. Evaluated on a tracker with no planned operation, the
  success-rate division raises \<^verbatim>\<open>ZeroDivisionError\<close> and no report is produced.
\<close>

theorem C9_report_raises_on_zero_total:
  "total_operations ProgressTracker_init = 0 \<and>
   generate_report ProgressTracker_init = Inl ZeroDivisionError"
  by (simp add: generate_report_def ProgressTracker_init_def)

text \<open>
  Claim C10. There is a state with a stylesheet at the top level of \<^verbatim>\<open>src/styles\<close>
  and a file of the same name in its bucket on which the re-bucketer moves the
  top-level file onto the bucket file: afterwards the bucket file has the top-level
  file's bytes, the top-level file is gone, the move is counted as completed, and
  neither an error nor a warning is recorded or logged.
\<close>

theorem C10_bucket_file_silently_replaced:
  "node_at (root w_clash) [''src'', ''styles'', ''panel.css''] = Some (File ''new'') \<and>
   node_at (root w_clash) [''src'', ''styles'', ''components'', ''panel.css'']
     = Some (File ''old'') \<and>
   (case reorganize_styles False (ProgressTracker_init, w_clash) of
      (e, pr, w) \<Rightarrow>
        e = None \<and>
        node_at (root w) [''src'', ''styles'', ''components'', ''panel.css'']
          = Some (File ''new'') \<and>
        \<not> os_path_exists (root w) [''src'', ''styles'', ''panel.css''] \<and>
        errors pr = [] \<and> warnings pr = [] \<and> completed_operations pr = 1 \<and>
        filter (\<lambda>l. fst l \<noteq> INFO) (logs w) = [])"
  by (simp add: reorganize_styles_def w_clash_def fs_clash_def
      css_moves_clash[unfolded fs_clash_def] os_path_isdir_def styles_root_def os_listdir_def
      is_css_def os_path_isfile_def os_path_join_def ascii_lower_def lower_char_def
      str_endswith_def logging_def inject_def set_total_def ProgressTracker_init_def
      move_file_def os_path_exists_def Let_def os_path_dirname_def shutil_move_def
      os_rename_def increment_def)


end
